theory Spec2Isabelle
  imports Main
begin

section \<open>JavaScript strings\<close>

text \<open>
  The scanner \<^verbatim>\<open>validate-contracts.js\<close> works on JavaScript strings. A string is
  modelled as a \<^typ>\<open>string\<close>: a list of code units, each below 256 (ASCII and the
  Latin-1 block). Every pattern of the scanner is plain ASCII.
\<close>

abbreviation (input) squote :: char where "squote \<equiv> CHR 0x27"
abbreviation (input) dquote :: char where "dquote \<equiv> CHR 0x22"
abbreviation (input) backtick :: char where "backtick \<equiv> CHR 0x60"
abbreviation (input) backslash :: char where "backslash \<equiv> CHR 0x5C"
abbreviation (input) newline :: char where "newline \<equiv> CHR 0x0A"

text \<open>
  White space and line terminators of ECMAScript below 256: TAB, LF, VT, FF, CR, SPACE
  and NBSP. It is what \<^verbatim>\<open>trim()\<close> strips and what \<^verbatim>\<open>\s\<close> matches.
\<close>

definition is_white_space :: "char \<Rightarrow> bool" where
  "is_white_space c \<longleftrightarrow>
     c \<in> set [CHR 0x09, CHR 0x0A, CHR 0x0B, CHR 0x0C, CHR 0x0D, CHR 0x20, CHR 0xA0]"

text \<open>\<^verbatim>\<open>s.trim()\<close>\<close>

definition trim :: "string \<Rightarrow> string" where
  "trim s = rev (dropWhile is_white_space (rev (dropWhile is_white_space s)))"

text \<open>\<^verbatim>\<open>s.startsWith(p)\<close>, \<^verbatim>\<open>s.endsWith(p)\<close> and \<^verbatim>\<open>s.includes(p)\<close>\<close>

fun startsWith :: "string \<Rightarrow> string \<Rightarrow> bool" where
  "startsWith s [] = True"
| "startsWith [] (p # ps) = False"
| "startsWith (c # s) (p # ps) = (if c = p then startsWith s ps else False)"

definition endsWith :: "string \<Rightarrow> string \<Rightarrow> bool" where
  "endsWith s p = startsWith (rev s) (rev p)"

fun includes_str :: "string \<Rightarrow> string \<Rightarrow> bool" where
  "includes_str [] p = (p = [])"
| "includes_str (c # s) p = (if startsWith (c # s) p then True else includes_str s p)"

text \<open>\<^verbatim>\<open>s.split('\n')\<close>: the text between line feeds; an empty string gives one empty line.\<close>

fun split_from :: "string \<Rightarrow> string \<Rightarrow> string list" where
  "split_from cur [] = [cur]"
| "split_from cur (c # s) =
     (if c = newline then cur # split_from [] s else split_from (cur @ [c]) s)"

definition split_lines :: "string \<Rightarrow> string list" where
  "split_lines content = split_from [] content"

text \<open>
  \<^verbatim>\<open>s.replace(p, r)\<close> with a string pattern replaces the first occurrence only;
  \<^verbatim>\<open>s.replace(/-/g, r)\<close> replaces every hyphen. No replacement text of the scanner
  holds a dollar sign, so it is inserted as it is.
\<close>

fun replace_first :: "string \<Rightarrow> string \<Rightarrow> string \<Rightarrow> string" where
  "replace_first [] p r = (if p = [] then r else [])"
| "replace_first (c # s) p r =
     (if startsWith (c # s) p then r @ drop (length p) (c # s)
      else c # replace_first s p r)"

definition replace_hyphens :: "string \<Rightarrow> string \<Rightarrow> string" where
  "replace_hyphens s r = concat (map (\<lambda>c. if c = CHR ''-'' then r else [c]) s)"

section \<open>Regular expressions\<close>

text \<open>
  The fragment of the RegExp syntax that the scanner's three patterns are written in:
  a literal character, the dot, a character class listing its members (with
  \<^verbatim>\<open>\s\<close> as a possible member) and the postfix quantifiers \<^verbatim>\<open>?\<close> and \<^verbatim>\<open>+\<close>.
\<close>

datatype atom = Lit char | Dot | Class "char list" bool

datatype quant = Once | Optional | OneOrMore

type_synonym regex = "(atom \<times> quant) list"

datatype pstate = Top | InClass "char list" bool

text \<open>
  Reading a pattern from left to right; the compiled items are collected in reverse.
  \<open>None\<close> is a pattern outside the fragment (a group, a range, an anchor, an escape
  other than \<^verbatim>\<open>\s\<close> in a class, an unterminated class, a quantifier with nothing
  to repeat).
\<close>

fun compile :: "pstate \<Rightarrow> regex \<Rightarrow> string \<Rightarrow> regex option" where
  "compile Top acc [] = Some (rev acc)"
| "compile (InClass ms sp) acc [] = None"
| "compile Top acc (c # r) =
     (if c = CHR ''['' then compile (InClass [] False) acc r
      else if c = CHR ''?'' then
        (case acc of (a, Once) # acc' \<Rightarrow> compile Top ((a, Optional) # acc') r | _ \<Rightarrow> None)
      else if c = CHR ''+'' then
        (case acc of (a, Once) # acc' \<Rightarrow> compile Top ((a, OneOrMore) # acc') r | _ \<Rightarrow> None)
      else if c = CHR ''.'' then compile Top ((Dot, Once) # acc) r
      else if c \<in> set [backslash, CHR ''^'', CHR ''$'', CHR ''*'', CHR ''('', CHR '')'',
                        CHR ''{'', CHR ''}'', CHR ''|'', CHR '']''] then None
      else compile Top ((Lit c, Once) # acc) r)"
| "compile (InClass ms sp) acc (c # r) =
     (if c = CHR '']'' then compile Top ((Class ms sp, Once) # acc) r
      else if c = backslash then
        (case r of d # r' \<Rightarrow> if d = CHR ''s'' then compile (InClass ms True) acc r' else None
         | [] \<Rightarrow> None)
      else if c = CHR ''^'' \<and> ms = [] \<and> \<not> sp then None
      else if c = CHR ''-'' \<and> (ms \<noteq> [] \<or> sp) \<and> \<not> startsWith r '']'' then None
      else compile (InClass (ms @ [c]) sp) acc r)"

text \<open>
  Canonicalize of the ECMAScript specification (without the unicode flag): a code unit
  is compared through its upper case. Below 256 the letters whose upper case is another
  code unit of that range are a-z and the Latin-1 letters 0xE0-0xFE except the division
  sign 0xF7.
\<close>

definition lower_case :: "char list" where
  "lower_case = ''abcdefghijklmnopqrstuvwxyz'' @
     [CHR 0xE0, CHR 0xE1, CHR 0xE2, CHR 0xE3, CHR 0xE4, CHR 0xE5,
      CHR 0xE6, CHR 0xE7, CHR 0xE8, CHR 0xE9, CHR 0xEA, CHR 0xEB,
      CHR 0xEC, CHR 0xED, CHR 0xEE, CHR 0xEF, CHR 0xF0, CHR 0xF1,
      CHR 0xF2, CHR 0xF3, CHR 0xF4, CHR 0xF5, CHR 0xF6, CHR 0xF8,
      CHR 0xF9, CHR 0xFA, CHR 0xFB, CHR 0xFC, CHR 0xFD, CHR 0xFE]"

definition upper_case :: "char list" where
  "upper_case = ''ABCDEFGHIJKLMNOPQRSTUVWXYZ'' @
     [CHR 0xC0, CHR 0xC1, CHR 0xC2, CHR 0xC3, CHR 0xC4, CHR 0xC5,
      CHR 0xC6, CHR 0xC7, CHR 0xC8, CHR 0xC9, CHR 0xCA, CHR 0xCB,
      CHR 0xCC, CHR 0xCD, CHR 0xCE, CHR 0xCF, CHR 0xD0, CHR 0xD1,
      CHR 0xD2, CHR 0xD3, CHR 0xD4, CHR 0xD5, CHR 0xD6, CHR 0xD8,
      CHR 0xD9, CHR 0xDA, CHR 0xDB, CHR 0xDC, CHR 0xDD, CHR 0xDE]"

definition canonicalize :: "char \<Rightarrow> char" where
  "canonicalize ch =
     (case map_of (zip lower_case upper_case) ch of Some u \<Rightarrow> u | None \<Rightarrow> ch)"

text \<open>One item of a pattern against one character; \<open>ic\<close> is the flag \<^verbatim>\<open>i\<close>.\<close>

fun atom_ok :: "bool \<Rightarrow> atom \<Rightarrow> char \<Rightarrow> bool" where
  "atom_ok ic (Lit p) c = (if ic then canonicalize c = canonicalize p else c = p)"
| "atom_ok ic Dot c = (c \<noteq> CHR 0x0A \<and> c \<noteq> CHR 0x0D)"
| "atom_ok ic (Class ms sp) c =
     (if (if ic then canonicalize c \<in> canonicalize ` set ms else c \<in> set ms) then True
      else sp \<and> is_white_space c)"

text \<open>
  The backtracking matcher: does the pattern match a prefix of the text? A greedy
  quantifier tries the longer match first; for a yes/no answer the order is immaterial.
\<close>

fun match_here :: "bool \<Rightarrow> regex \<Rightarrow> string \<Rightarrow> bool" where
  "match_here ic [] s = True"
| "match_here ic ((a, Once) # r) [] = False"
| "match_here ic ((a, Once) # r) (c # s) =
     (if atom_ok ic a c then match_here ic r s else False)"
| "match_here ic ((a, Optional) # r) [] = match_here ic r []"
| "match_here ic ((a, Optional) # r) (c # s) =
     (if atom_ok ic a c \<and> match_here ic r s then True else match_here ic r (c # s))"
| "match_here ic ((a, OneOrMore) # r) [] = False"
| "match_here ic ((a, OneOrMore) # r) (c # s) =
     (if atom_ok ic a c
      then (if match_here ic ((a, OneOrMore) # r) s then True else match_here ic r s)
      else False)"

text \<open>\<^verbatim>\<open>regex.test(line)\<close> from index 0: a match starting at some position.\<close>

fun search :: "bool \<Rightarrow> regex \<Rightarrow> string \<Rightarrow> bool" where
  "search ic r [] = match_here ic r []"
| "search ic r (c # s) = (if match_here ic r (c # s) then True else search ic r s)"

text \<open>
  \<^verbatim>\<open>new RegExp(source, flags).test(line)\<close>. The expression is built afresh for every
  test, so the flag \<^verbatim>\<open>g\<close> (which makes \<^verbatim>\<open>test\<close> resume at \<^verbatim>\<open>lastIndex\<close>) has no effect:
  every test starts at index 0. \<open>None\<close> is a source outside the modelled fragment.
\<close>

definition RegExp_test :: "string \<Rightarrow> string \<Rightarrow> string \<Rightarrow> bool option" where
  "RegExp_test source flags line =
     map_option (\<lambda>r. search (CHR ''i'' \<in> set flags) r line) (compile Top [] source)"

section \<open>Findings and the known pattern registry\<close>

text \<open>
  A value as \<^verbatim>\<open>yaml.load\<close> returns it (numbers restricted to integers). It is also
  the type of a finding's message: the message of a \<^verbatim>\<open>config_error\<close> is whatever the
  property \<^verbatim>\<open>error\<close> of the loaded configuration holds.
\<close>

datatype jsval = JUndefined | JNull | JBool bool | JNum int | JStr string
  | JArr "jsval list" | JObj "(string \<times> jsval) list"

datatype finding_type = hardcoded_table_name | hardcoded_lambda_name
  | hardcoded_event_source | scan_error | config_error | invalid_contract_path
  | package_not_installed

datatype severity = Error | Warning

text \<open>
  A finding is an object literal; a key that the literal leaves out is \<open>None\<close>.
  The field \<open>kind\<close> is the key \<^verbatim>\<open>type\<close>, \<open>file_path\<close> the key \<^verbatim>\<open>file\<close> and
  \<open>line_no\<close> the key \<^verbatim>\<open>line\<close>.
\<close>

record finding =
  kind :: finding_type
  severity :: severity
  file_path :: "string option"
  line_no :: "nat option"
  message :: jsval
  contract :: "string option"
  snippet :: "string option"
  expected :: "string option"

record summary =
  total :: nat
  errors :: nat
  warnings :: nat
  filesScanned :: nat

record metadata =
  configFile :: "string option"
  advisoryMode :: bool
  timestamp :: string
  version :: string

text \<open>The two arrays \<^verbatim>\<open>{ violations, warnings }\<close> that \<^verbatim>\<open>scanFile\<close> fills and returns.\<close>

record findings =
  violations :: "finding list"
  warnings :: "finding list"

text \<open>The report \<^verbatim>\<open>result\<close> of \<^verbatim>\<open>validate\<close>: the same two arrays and three more keys.\<close>

record report = findings +
  passed :: bool
  summary :: summary
  metadata :: metadata

text \<open>
  What a run leaves behind when \<^verbatim>\<open>validate\<close> returns or calls \<^verbatim>\<open>process.exit\<close>: the
  reports written by \<^verbatim>\<open>console.log(JSON.stringify(result, null, 2))\<close>, in order, and the
  exit code.
\<close>

record run =
  stdout :: "report list"
  exit_code :: nat

definition KNOWN_TABLE_PATTERNS :: "string list" where
  "KNOWN_TABLE_PATTERNS =
    [''teric-agentic-work-items'',
     ''teric-agentic-initiatives'',
     ''teric-agentic-code-reviews'',
     ''teric-agentic-knowledge-facts'',
     ''teric-agentic-e2e-test-runs'',
     ''teric-agentic-e2e-consecutive-passes'',
     ''teric-agentic-e2e-repository-registry'',
     ''teric-agentic-workflows'',
     ''teric-agentic-executions'',
     ''teric-agentic-metrics'',
     ''teric-agentic-contract-release-records'',
     ''teric-agentic-crr-consumption-tokens'']"

definition KNOWN_LAMBDA_PATTERNS :: "string list" where
  "KNOWN_LAMBDA_PATTERNS =
    [''app-code-review'',
     ''app-e2e-tester'',
     ''app-planning-coordinator'',
     ''app-infra-promoter'',
     ''app-llm-advisor'',
     ''mcp-work-coordinator'',
     ''mcp-knowledge-graph'',
     ''teric-orchestrator'']"

definition KNOWN_EVENT_SOURCES :: "string list" where
  "KNOWN_EVENT_SOURCES =
    [''teric.orchestrator'',
     ''teric.code-review'',
     ''teric.e2e-tester'',
     ''teric.planning'',
     ''teric.infra-promoter'']"

section \<open>The environment of a run\<close>

text \<open>
  What a directory entry is: a regular file, a directory with its entries (\<open>Some msg\<close>
  when \<^verbatim>\<open>readdirSync\<close> on it throws an error with that message), a symbolic link with
  what it points to (\<open>None\<close> when it points nowhere), or anything else (a socket, a
  pipe). \<^verbatim>\<open>existsSync\<close> and \<^verbatim>\<open>readdirSync\<close> follow a link; the entry of a link in a listing
  answers false to \<^verbatim>\<open>isFile()\<close> and to \<^verbatim>\<open>isDirectory()\<close>, as the entry of anything else
  does.
\<close>

datatype fsnode = File | Special | Dir "string option" "(string \<times> fsnode) list"
  | Link "fsnode option"

text \<open>
  Everything a run reads from outside: the arguments after the script name, the file
  system, the YAML parser, whether \<^verbatim>\<open>require.resolve('@teric/contracts')\<close> succeeds, and the
  clock. A call that throws returns \<open>Inl\<close> with the error's message.
  \<open>existsSync\<close> and \<open>readFileSync\<close> answer by path, for the configuration file and
  for the source files. Directories are listed from the tree of the working directory,
  \<open>cwd_entries\<close> (\<open>cwd_error\<close> as for \<open>Dir\<close>): one of the conventional source
  directories exists when the tree has an entry of that name. The working directory
  itself exists throughout the run, so \<^verbatim>\<open>fs.existsSync('.')\<close> is true.
\<close>

record env =
  argv :: "string list"
  existsSync :: "string \<Rightarrow> bool"
  readFileSync :: "string \<Rightarrow> string + string"
  yaml_load :: "string \<Rightarrow> string + jsval"
  contracts_package_resolves :: bool
  cwd_error :: "string option"
  cwd_entries :: "(string \<times> fsnode) list"
  now_ISO :: string

section \<open>scanFile\<close>

definition quote_class :: string where
  "quote_class = [CHR ''['', squote, dquote, backtick, CHR '']'']"

definition table_source :: "string \<Rightarrow> string" where
  "table_source tableName =
     quote_class @ replace_hyphens tableName ''[-]?'' @ quote_class"

definition lambda_source :: "string \<Rightarrow> string" where
  "lambda_source funcName =
     ''FunctionName['' @ [squote, dquote, backslash] @ ''s:]+'' @ quote_class @ funcName
       @ quote_class"

definition event_source :: "string \<Rightarrow> string" where
  "event_source source =
     ''Source['' @ [squote, dquote, backslash] @ ''s:]+'' @ quote_class @ source
       @ quote_class"

text \<open>The object literals pushed by the three checks.\<close>

definition table_finding :: "string \<Rightarrow> nat \<Rightarrow> string \<Rightarrow> string \<Rightarrow> finding" where
  "table_finding filePath lineNum line tableName =
     \<lparr>kind = hardcoded_table_name, severity = Error, file_path = Some filePath,
      line_no = Some lineNum,
      message = JStr (''Hardcoded table name '' @ squote # tableName @ squote #
                      '' should use @teric/contracts''),
      contract = Some (''@teric/contracts/dynamodb/'' @
                       replace_first tableName ''teric-agentic-'' ''''),
      snippet = Some (take 100 (trim line)), expected = None\<rparr>"

definition lambda_finding :: "string \<Rightarrow> nat \<Rightarrow> string \<Rightarrow> string \<Rightarrow> finding" where
  "lambda_finding filePath lineNum line funcName =
     \<lparr>kind = hardcoded_lambda_name, severity = Error, file_path = Some filePath,
      line_no = Some lineNum,
      message = JStr (''Hardcoded Lambda name '' @ squote # funcName @ squote #
                      '' should use @teric/contracts''),
      contract = Some (''@teric/contracts/lambda/'' @ funcName),
      snippet = Some (take 100 (trim line)), expected = None\<rparr>"

definition event_finding :: "string \<Rightarrow> nat \<Rightarrow> string \<Rightarrow> string \<Rightarrow> finding" where
  "event_finding filePath lineNum line source =
     \<lparr>kind = hardcoded_event_source, severity = Warning, file_path = Some filePath,
      line_no = Some lineNum,
      message = JStr (''EventBridge source '' @ squote # source @ squote #
                      '' should use @teric/contracts''),
      contract = Some (''@teric/contracts/events/'' @ replace_first source ''teric.'' ''''),
      snippet = Some (take 100 (trim line)), expected = None\<rparr>"

text \<open>The body of \<^verbatim>\<open>KNOWN_TABLE_PATTERNS.forEach\<close>: one table name against one line.\<close>

definition check_table :: "string \<Rightarrow> nat \<Rightarrow> string \<Rightarrow> string \<Rightarrow> findings \<Rightarrow> findings" where
  "check_table filePath lineNum line tableName acc =
     (if RegExp_test (table_source tableName) ''gi'' line = Some True then
        (if includes_str filePath ''/contracts/'' \<or> includes_str filePath ''.test.''
            \<or> includes_str filePath ''.spec.'' \<or> includes_str filePath ''__tests__''
         then acc
         else acc\<lparr>violations :=
                    violations acc @ [table_finding filePath lineNum line tableName]\<rparr>)
      else acc)"

text \<open>The body of \<^verbatim>\<open>KNOWN_LAMBDA_PATTERNS.forEach\<close>.\<close>

definition check_lambda :: "string \<Rightarrow> nat \<Rightarrow> string \<Rightarrow> string \<Rightarrow> findings \<Rightarrow> findings" where
  "check_lambda filePath lineNum line funcName acc =
     (if RegExp_test (lambda_source funcName) ''i'' line = Some True then
        (if includes_str filePath ''/contracts/'' \<or> includes_str filePath ''.test.''
            \<or> includes_str filePath ''.spec.''
         then acc
         else acc\<lparr>violations :=
                    violations acc @ [lambda_finding filePath lineNum line funcName]\<rparr>)
      else acc)"

text \<open>The body of \<^verbatim>\<open>KNOWN_EVENT_SOURCES.forEach\<close>.\<close>

definition check_event :: "string \<Rightarrow> nat \<Rightarrow> string \<Rightarrow> string \<Rightarrow> findings \<Rightarrow> findings" where
  "check_event filePath lineNum line source acc =
     (if RegExp_test (event_source source) ''i'' line = Some True then
        (if includes_str filePath ''/contracts/'' \<or> includes_str filePath ''.test.''
            \<or> includes_str filePath ''.spec.''
         then acc
         else acc\<lparr>warnings :=
                    warnings acc @ [event_finding filePath lineNum line source]\<rparr>)
      else acc)"

text \<open>The body of \<^verbatim>\<open>lines.forEach((line, index) => ...)\<close>.\<close>

definition scan_line :: "string \<Rightarrow> nat \<times> string \<Rightarrow> findings \<Rightarrow> findings" where
  "scan_line filePath = (\<lambda>(index, line) acc.
     let lineNum = index + 1 in
     if startsWith (trim line) ''//'' \<or> startsWith (trim line) ''#''
        \<or> startsWith (trim line) ''*''
     then acc
     else fold (check_event filePath lineNum line) KNOWN_EVENT_SOURCES
           (fold (check_lambda filePath lineNum line) KNOWN_LAMBDA_PATTERNS
             (fold (check_table filePath lineNum line) KNOWN_TABLE_PATTERNS acc)))"

text \<open>The object literal pushed by the \<^verbatim>\<open>catch\<close> block.\<close>

definition scan_error_finding :: "string \<Rightarrow> string \<Rightarrow> finding" where
  "scan_error_finding filePath msg =
     \<lparr>kind = scan_error, severity = Warning, file_path = Some filePath,
      line_no = Some 0, message = JStr (''Could not scan file: '' @ msg),
      contract = None, snippet = None, expected = None\<rparr>"

text \<open>
  \<^verbatim>\<open>scanFile(filePath, contracts)\<close>. The read is the only call of the \<^verbatim>\<open>try\<close> block that
  can throw (the known patterns all compile); the \<^verbatim>\<open>catch\<close> turns the error into one
  warning. The parameter \<^verbatim>\<open>contracts\<close> is not used by the source.
\<close>

definition scanFile :: "env \<Rightarrow> string \<Rightarrow> jsval \<Rightarrow> findings" where
  "scanFile e filePath contracts =
     (case readFileSync e filePath of
        Inr content \<Rightarrow>
          fold (scan_line filePath) (enumerate 0 (split_lines content))
            \<lparr>violations = [], warnings = []\<rparr>
      | Inl msg \<Rightarrow>
          \<lparr>violations = [],
           warnings =
             [scan_error_finding filePath msg]\<rparr>)"

section \<open>getSourceFiles\<close>

definition source_extensions :: "string list" where
  "source_extensions = [''.ts'', ''.js'', ''.tsx'', ''.jsx'']"

definition skipped_directories :: "string list" where
  "skipped_directories =
     [''node_modules'', ''dist'', ''build'', ''.git'', ''coverage'', ''.next'', ''.cache'']"

text \<open>\<^verbatim>\<open>path.join(dir, name)\<close> for a directory path and an entry name of it.\<close>

definition path_join :: "string \<Rightarrow> string \<Rightarrow> string" where
  "path_join dir name = dir @ ''/'' @ name"

text \<open>
  \<^verbatim>\<open>getSourceFiles(dir)\<close> with the default extensions. The second argument is what
  \<open>dir\<close> is in the file system: \<open>None\<close> when \<^verbatim>\<open>fs.existsSync(dir)\<close> is false.
  \<^verbatim>\<open>readdirSync\<close> throws on a path that is not a directory and on a directory it cannot
  list; the source does not catch it. \<open>getSourceFiles_items\<close> is the loop over the
  entries, \<open>files\<close> its array.
\<close>

fun getSourceFiles :: "string \<Rightarrow> fsnode option \<Rightarrow> string + string list"
  and getSourceFiles_items ::
    "string \<Rightarrow> (string \<times> fsnode) list \<Rightarrow> string list \<Rightarrow> string + string list"
where
  "getSourceFiles dir None = Inr []"
| "getSourceFiles dir (Some File) =
     Inl (''ENOTDIR: not a directory, scandir '' @ squote # dir @ [squote])"
| "getSourceFiles dir (Some Special) =
     Inl (''ENOTDIR: not a directory, scandir '' @ squote # dir @ [squote])"
| "getSourceFiles dir (Some (Link None)) = Inr []"
| "getSourceFiles dir (Some (Link (Some target))) = getSourceFiles dir (Some target)"
| "getSourceFiles dir (Some (Dir (Some msg) items)) = Inl msg"
| "getSourceFiles dir (Some (Dir None items)) = getSourceFiles_items dir items []"
| "getSourceFiles_items dir [] files = Inr files"
| "getSourceFiles_items dir ((name, node) # items) files =
     (let fullPath = path_join dir name in
      if (case node of Dir err sub \<Rightarrow> True | _ \<Rightarrow> False) \<and> name \<notin> set skipped_directories
      then (case getSourceFiles fullPath (Some node) of
              Inl msg \<Rightarrow> Inl msg
            | Inr found \<Rightarrow> getSourceFiles_items dir items (files @ found))
      else if node = File \<and> (\<exists>ext \<in> set source_extensions. endsWith name ext)
      then getSourceFiles_items dir items (files @ [fullPath])
      else getSourceFiles_items dir items files)"

section \<open>The configuration\<close>

text \<open>
  Reading one of the properties \<^verbatim>\<open>error\<close>, \<^verbatim>\<open>dynamodb\<close>, \<^verbatim>\<open>tables\<close> and \<^verbatim>\<open>contract\<close>
  (the only ones the scanner reads) of a value: a TypeError on \<^verbatim>\<open>undefined\<close> and
  \<^verbatim>\<open>null\<close>, the entry of an object, \<^verbatim>\<open>undefined\<close> on everything else.
\<close>

fun get_prop :: "jsval \<Rightarrow> string \<Rightarrow> string + jsval" where
  "get_prop JUndefined k =
     Inl (''Cannot read properties of undefined (reading '' @ squote # k @ squote # '')'')"
| "get_prop JNull k =
     Inl (''Cannot read properties of null (reading '' @ squote # k @ squote # '')'')"
| "get_prop (JObj kvs) k = Inr (case map_of kvs k of Some v \<Rightarrow> v | None \<Rightarrow> JUndefined)"
| "get_prop v k = Inr JUndefined"

fun truthy :: "jsval \<Rightarrow> bool" where
  "truthy JUndefined = False"
| "truthy JNull = False"
| "truthy (JBool b) = b"
| "truthy (JNum n) = (n \<noteq> 0)"
| "truthy (JStr s) = (s \<noteq> [])"
| "truthy (JArr xs) = True"
| "truthy (JObj kvs) = True"

text \<open>\<^verbatim>\<open>configFile\<close> and \<^verbatim>\<open>advisoryMode\<close>, from the arguments; \<open>None\<close> is \<^verbatim>\<open>undefined\<close>.\<close>

definition configFile_of :: "string list \<Rightarrow> string option" where
  "configFile_of args =
     (case dropWhile (\<lambda>a. a \<noteq> ''--config'') args of
        [] \<Rightarrow> Some ''infra.contracts.yaml''
      | flag # rest \<Rightarrow> (case rest of [] \<Rightarrow> None | path # others \<Rightarrow> Some path))"

definition advisoryMode_of :: "string list \<Rightarrow> bool" where
  "advisoryMode_of args \<longleftrightarrow> ''--advisory'' \<in> set args"

text \<open>\<^verbatim>\<open>parseContractsFile(configPath)\<close>; \<^verbatim>\<open>fs.existsSync(undefined)\<close> is false.\<close>

definition parseContractsFile :: "env \<Rightarrow> string option \<Rightarrow> jsval" where
  "parseContractsFile e configPath =
     (case configPath of
        None \<Rightarrow> JObj [(''error'', JStr ''Config file not found: undefined'')]
      | Some p \<Rightarrow>
          if \<not> existsSync e p then JObj [(''error'', JStr (''Config file not found: '' @ p))]
          else (case readFileSync e p of
                  Inl msg \<Rightarrow> JObj [(''error'', JStr (''Failed to parse config: '' @ msg))]
                | Inr content \<Rightarrow>
                    (case yaml_load e content of
                       Inl msg \<Rightarrow> JObj [(''error'', JStr (''Failed to parse config: '' @ msg))]
                     | Inr doc \<Rightarrow> doc)))"

text \<open>
  The body of the loop of \<^verbatim>\<open>validateDeclaredContracts\<close> over the declared tables, and
  the loop. \<^verbatim>\<open>table.contract.startsWith\<close> is a function only when the contract is a string.
\<close>

definition check_declared_table :: "jsval \<Rightarrow> string + finding list" where
  "check_declared_table table =
     (case get_prop table ''contract'' of
        Inl msg \<Rightarrow> Inl msg
      | Inr c \<Rightarrow>
          if \<not> truthy c then Inr []
          else (case c of
                  JStr path \<Rightarrow>
                    if \<not> startsWith path ''@teric/contracts/''
                    then Inr [\<lparr>kind = invalid_contract_path, severity = Warning,
                               file_path = None, line_no = None,
                               message = JStr (''Invalid contract path: '' @ path),
                               contract = None, snippet = None,
                               expected = Some ''@teric/contracts/dynamodb/<table-name>''\<rparr>]
                    else Inr []
                | _ \<Rightarrow> Inl ''table.contract.startsWith is not a function''))"

fun declared_tables_loop :: "jsval list \<Rightarrow> finding list \<Rightarrow> string + finding list" where
  "declared_tables_loop [] ws = Inr ws"
| "declared_tables_loop (table # tables) ws =
     (case check_declared_table table of
        Inl msg \<Rightarrow> Inl msg
      | Inr w \<Rightarrow> declared_tables_loop tables (ws @ w))"

definition package_finding :: finding where
  "package_finding =
     \<lparr>kind = package_not_installed, severity = Warning, file_path = None, line_no = None,
      message = JStr (''@teric/contracts package not installed - '' @
                      ''cannot validate contract declarations''),
      contract = None, snippet = None, expected = None\<rparr>"

text \<open>
  \<^verbatim>\<open>validateDeclaredContracts(contracts)\<close>. \<^verbatim>\<open>for ... of\<close> iterates over an array and over
  the characters of a string, and throws on any other truthy value.
\<close>

definition validateDeclaredContracts :: "env \<Rightarrow> jsval \<Rightarrow> string + finding list" where
  "validateDeclaredContracts e contracts =
     (if \<not> contracts_package_resolves e
      then Inr [package_finding]
      else (case get_prop contracts ''dynamodb'' of
              Inl msg \<Rightarrow> Inl msg
            | Inr dynamodb \<Rightarrow>
                (case (if dynamodb = JUndefined \<or> dynamodb = JNull then Inr JUndefined
                       else get_prop dynamodb ''tables'') of
                   Inl msg \<Rightarrow> Inl msg
                 | Inr tables \<Rightarrow>
                     if \<not> truthy tables then Inr []
                     else (case tables of
                             JArr xs \<Rightarrow> declared_tables_loop xs []
                           | JStr cs \<Rightarrow> declared_tables_loop (map (\<lambda>c. JStr [c]) cs) []
                           | _ \<Rightarrow> Inl ''contracts.dynamodb.tables is not iterable''))))"

section \<open>validate\<close>

definition srcDirs :: "string list" where
  "srcDirs = [''src'', ''lib'', ''handlers'', ''services'', ''components'']"

text \<open>The loop \<^verbatim>\<open>for (const dir of srcDirs) sourceFiles.push(...getSourceFiles(dir))\<close>.\<close>

fun collect_dirs :: "env \<Rightarrow> string list \<Rightarrow> string list \<Rightarrow> string + string list" where
  "collect_dirs e [] sourceFiles = Inr sourceFiles"
| "collect_dirs e (dir # dirs) sourceFiles =
     (case getSourceFiles dir (map_of (cwd_entries e) dir) of
        Inl msg \<Rightarrow> Inl msg
      | Inr found \<Rightarrow> collect_dirs e dirs (sourceFiles @ found))"

text \<open>The root level files: the names \<^verbatim>\<open>fs.readdirSync('.')\<close> returns, filtered.\<close>

definition root_files :: "env \<Rightarrow> string + string list" where
  "root_files e =
     (case cwd_error e of
        Some msg \<Rightarrow> Inl msg
      | None \<Rightarrow>
          Inr (filter (\<lambda>f. (endsWith f ''.ts'' \<or> endsWith f ''.js'')
                          \<and> \<not> includes_str f ''.config'' \<and> \<not> includes_str f ''.test'')
                 (map fst (cwd_entries e))))"

text \<open>The loop \<^verbatim>\<open>for (const filePath of sourceFiles)\<close> over the report.\<close>

definition scan_step :: "env \<Rightarrow> jsval \<Rightarrow> string \<Rightarrow> report \<Rightarrow> report" where
  "scan_step e contracts filePath result =
     (let found = scanFile e filePath contracts
      in result\<lparr>violations := violations result @ violations found,
                warnings := warnings result @ warnings found\<rparr>)"

definition config_error_finding :: "jsval \<Rightarrow> finding" where
  "config_error_finding err =
     \<lparr>kind = config_error, severity = Warning, file_path = None, line_no = None,
      message = err, contract = None, snippet = None, expected = None\<rparr>"

text \<open>
  \<^verbatim>\<open>validate()\<close>. \<open>Inl\<close> is an exception that leaves the function: nothing catches it,
  and nothing has been written by then. \<open>Inr\<close> is the run that returns (exit code 0)
  or ends in \<^verbatim>\<open>process.exit(1)\<close>.
\<close>

definition validate :: "env \<Rightarrow> string + run" where
  "validate e =
     (let configFile = configFile_of (argv e);
          advisoryMode = advisoryMode_of (argv e);
          result = \<lparr>violations = [], warnings = [], passed = True,
                    summary = \<lparr>total = 0, errors = 0, warnings = 0, filesScanned = 0\<rparr>,
                    metadata = \<lparr>configFile = configFile, advisoryMode = advisoryMode,
                                timestamp = now_ISO e, version = ''1.0.0''\<rparr>\<rparr>;
          contracts = parseContractsFile e configFile
      in case get_prop contracts ''error'' of
           Inl msg \<Rightarrow> Inl msg
         | Inr err \<Rightarrow>
             if truthy err
             then Inr \<lparr>stdout = [result\<lparr>warnings := warnings result @
                                                   [config_error_finding err]\<rparr>],
                       exit_code = 0\<rparr>
             else
               (case validateDeclaredContracts e contracts of
                  Inl msg \<Rightarrow> Inl msg
                | Inr declaredWarnings \<Rightarrow>
                    (case collect_dirs e srcDirs [] of
                       Inl msg \<Rightarrow> Inl msg
                     | Inr dirFiles \<Rightarrow>
                         (case root_files e of
                            Inl msg \<Rightarrow> Inl msg
                          | Inr rootFiles \<Rightarrow>
                              (let sourceFiles = dirFiles @ rootFiles;
                                   r1 = result\<lparr>warnings := warnings result @ declaredWarnings,
                                               summary := (summary result)
                                                 \<lparr>filesScanned := length sourceFiles\<rparr>\<rparr>;
                                   r2 = fold (scan_step e contracts) sourceFiles r1;
                                   r3 = r2\<lparr>summary := (summary r2)
                                          \<lparr>errors := length (violations r2),
                                           summary.warnings := length (warnings r2),
                                           total := length (violations r2)
                                                    + length (warnings r2)\<rparr>\<rparr>;
                                   r4 = (if length (violations r3) > 0
                                         then r3\<lparr>passed := advisoryMode\<rparr> else r3)
                               in Inr \<lparr>stdout = [r4],
                                       exit_code =
                                         (if \<not> advisoryMode \<and> length (violations r4) > 0
                                          then 1 else 0)\<rparr>)))))"

text \<open>
  The script: the call \<^verbatim>\<open>validate()\<close> at the top level. Node ends a process whose
  exception nobody catches with exit code 1; the script has written nothing by then.
\<close>

definition run_script :: "env \<Rightarrow> run" where
  "run_script e =
     (case validate e of Inl msg \<Rightarrow> \<lparr>stdout = [], exit_code = 1\<rparr> | Inr r \<Rightarrow> r)"

section \<open>Derived notions for the statements\<close>

text \<open>
  The compiled form of the three patterns: \<open>compile\<close> yields exactly these for every
  name of the registry (lemmas \<open>known_tables_compile\<close>, \<open>known_lambdas_compile\<close> and
  \<open>known_events_compile\<close> below).
\<close>

definition quotes :: atom where
  "quotes = Class [squote, dquote, backtick] False"

definition separator :: atom where
  "separator = Class [squote, dquote, CHR '':''] True"

definition table_items :: "string \<Rightarrow> regex" where
  "table_items t =
     map (\<lambda>c. if c = CHR ''-'' then (Class ''-'' False, Optional) else (Lit c, Once)) t"

definition literal_items :: "string \<Rightarrow> regex" where
  "literal_items s = map (\<lambda>c. (Lit c, Once)) s"

definition dotted_items :: "string \<Rightarrow> regex" where
  "dotted_items s = map (\<lambda>c. if c = CHR ''.'' then (Dot, Once) else (Lit c, Once)) s"

definition table_regex :: "string \<Rightarrow> regex" where
  "table_regex t = (quotes, Once) # table_items t @ [(quotes, Once)]"

definition lambda_regex :: "string \<Rightarrow> regex" where
  "lambda_regex f =
     literal_items ''FunctionName'' @ (separator, OneOrMore) # (quotes, Once) #
       literal_items f @ [(quotes, Once)]"

definition event_regex :: "string \<Rightarrow> regex" where
  "event_regex s =
     literal_items ''Source'' @ (separator, OneOrMore) # (quotes, Once) #
       dotted_items s @ [(quotes, Once)]"

text \<open>The names of the registry whose pattern matches a line.\<close>

definition table_hits :: "string \<Rightarrow> string list" where
  "table_hits l = filter (\<lambda>t. search True (table_regex t) l) KNOWN_TABLE_PATTERNS"

definition lambda_hits :: "string \<Rightarrow> string list" where
  "lambda_hits l = filter (\<lambda>f. search True (lambda_regex f) l) KNOWN_LAMBDA_PATTERNS"

definition event_hits :: "string \<Rightarrow> string list" where
  "event_hits l = filter (\<lambda>s. search True (event_regex s) l) KNOWN_EVENT_SOURCES"

text \<open>The path tests of the table check and of the other two checks.\<close>

definition skips_tables :: "string \<Rightarrow> bool" where
  "skips_tables p \<longleftrightarrow>
     includes_str p ''/contracts/'' \<or> includes_str p ''.test.'' \<or> includes_str p ''.spec.''
     \<or> includes_str p ''__tests__''"

definition skips_names :: "string \<Rightarrow> bool" where
  "skips_names p \<longleftrightarrow>
     includes_str p ''/contracts/'' \<or> includes_str p ''.test.'' \<or> includes_str p ''.spec.''"

definition is_comment_line :: "string \<Rightarrow> bool" where
  "is_comment_line l \<longleftrightarrow>
     startsWith (trim l) ''//'' \<or> startsWith (trim l) ''#'' \<or> startsWith (trim l) ''*''"

text \<open>The spellings of a name with any of its hyphens left out.\<close>

fun omit_hyphens :: "string \<Rightarrow> string list" where
  "omit_hyphens [] = [[]]"
| "omit_hyphens (c # s) =
     (if c = CHR ''-'' then map ((#) c) (omit_hyphens s) @ omit_hyphens s
      else map ((#) c) (omit_hyphens s))"

definition quote_chars :: "char set" where
  "quote_chars = {squote, dquote, backtick}"

text \<open>Two texts that differ in the case of letters only; the letters.\<close>

definition same_modulo_case :: "string \<Rightarrow> string \<Rightarrow> bool" where
  "same_modulo_case l l' \<longleftrightarrow> map canonicalize l = map canonicalize l'"

definition is_letter :: "char \<Rightarrow> bool" where
  "is_letter c \<longleftrightarrow> c \<in> set lower_case \<or> c \<in> set upper_case"

text \<open>A finding without its snippet, and the empty pair of arrays.\<close>

definition without_snippet :: "finding \<Rightarrow> finding" where
  "without_snippet f = f\<lparr>snippet := None\<rparr>"

definition no_findings :: findings where
  "no_findings = \<lparr>violations = [], warnings = []\<rparr>"

text \<open>What the lines \<open>ls\<close> of a file yield when the first of them has index \<open>k\<close>.\<close>

definition scan_lines :: "string \<Rightarrow> nat \<Rightarrow> string list \<Rightarrow> findings" where
  "scan_lines p k ls = fold (scan_line p) (enumerate k ls) no_findings"



section \<open>Sample runs\<close>

text \<open>
  A repository with a configuration and two source files: the first listed cannot be
  read, the second names a table on its second line. The contracts package is not
  installed.
\<close>

definition table_line :: string where
  "table_line = ''const tableName = 'teric-agentic-work-items';''"

definition handler_content :: string where
  "handler_content =
     ''export async function handler() {'' @ newline # table_line @ newline # ''}''"

definition gone_message :: string where
  "gone_message =
     ''ENOENT: no such file or directory, open '' @ squote # ''src/gone.ts'' @ [squote]"

definition demo_env :: env where
  "demo_env =
     \<lparr>argv = [''--config'', ''infra.contracts.yaml''],
      existsSync = (\<lambda>p. p = ''infra.contracts.yaml''),
      readFileSync = (\<lambda>p.
        if p = ''infra.contracts.yaml'' then Inr ''contract_version: 1''
        else if p = ''src/handler.ts'' then Inr handler_content
        else Inl (''ENOENT: no such file or directory, open '' @ squote # p @ [squote])),
      yaml_load = (\<lambda>c. Inr (JObj [(''contract_version'', JNum 1)])),
      contracts_package_resolves = False,
      cwd_error = None,
      cwd_entries =
        [(''infra.contracts.yaml'', File),
         (''src'', Dir None [(''gone.ts'', File), (''handler.ts'', File)])],
      now_ISO = ''2025-01-01T00:00:00.000Z''\<rparr>"

text \<open>The same repository without its configuration file, and with an empty one
  (\<^verbatim>\<open>yaml.load\<close> returns \<^verbatim>\<open>undefined\<close> for an empty document).\<close>

definition no_config_env :: env where
  "no_config_env = demo_env\<lparr>existsSync := (\<lambda>p. False)\<rparr>"

definition empty_config_env :: env where
  "empty_config_env =
     demo_env\<lparr>argv := [''--advisory''],
              readFileSync := (\<lambda>p. if p = ''infra.contracts.yaml'' then Inr [] else
                                     readFileSync demo_env p),
              yaml_load := (\<lambda>c. Inr JUndefined)\<rparr>"

text \<open>Lines of source files.\<close>

definition upper_table_line :: string where
  "upper_table_line = ''const tableName = 'TERIC-AGENTIC-WORK-ITEMS';''"

definition lambda_line :: string where
  "lambda_line = ''FunctionName: 'app-code-review'' @ [squote]"

definition source_line :: string where
  "source_line = ''Source: 'teric.orchestrator'' @ [squote]"

definition upper_lambda_line :: string where
  "upper_lambda_line = ''functionname: '' @ dquote # ''APP-CODE-REVIEW'' @ [dquote]"

definition overmatch_line :: string where
  "overmatch_line = dquote # ''teric-agentic-work-items'' @ squote # ''-v2'' @ [dquote]"

definition extended_line :: string where
  "extended_line = ''const tableName = 'teric-agentic-work-items-v2';''"

definition short_line :: string where
  "short_line = ''x = '' @ backtick # ''tericagentic-workitems'' @ squote # '';''"

text \<open>The report of the first sample run.\<close>

definition demo_report :: report where
  "demo_report =
     \<lparr>violations = [table_finding ''src/handler.ts'' 2 table_line ''teric-agentic-work-items''],
      warnings = [package_finding, scan_error_finding ''src/gone.ts'' gone_message],
      passed = False,
      summary = \<lparr>total = 3, errors = 1, warnings = 2, filesScanned = 2\<rparr>,
      metadata = \<lparr>configFile = Some ''infra.contracts.yaml'', advisoryMode = False,
                  timestamp = ''2025-01-01T00:00:00.000Z'', version = ''1.0.0''\<rparr>\<rparr>"

text \<open>
  A source file of six lines: a comment, the event source on line 3 and the function
  name on line 6.
\<close>

definition invoker_content :: string where
  "invoker_content =
     ''// events and invocations'' @ newline # ''const detail = {};'' @ newline #
     source_line @ newline # newline # ''const params = {};'' @ newline # lambda_line"

definition invoker_env :: env where
  "invoker_env =
     demo_env\<lparr>readFileSync := (\<lambda>p. if p = ''src/invoker.ts'' then Inr invoker_content
                                     else readFileSync demo_env p)\<rparr>"

text \<open>
  The configuration is absent (also when \<^verbatim>\<open>--config\<close> is the last argument, so that
  the path is \<^verbatim>\<open>undefined\<close>) or unparseable: reading it or parsing it throws.
\<close>

definition config_unusable :: "env \<Rightarrow> bool" where
  "config_unusable e \<longleftrightarrow>
     (case configFile_of (argv e) of
        None \<Rightarrow> True
      | Some p \<Rightarrow>
          \<not> existsSync e p \<or>
          (case readFileSync e p of
             Inl msg \<Rightarrow> True
           | Inr content \<Rightarrow> (case yaml_load e content of Inl msg \<Rightarrow> True | Inr doc \<Rightarrow> False)))"

section \<open>Evaluation lemmas\<close>

text \<open>The upper case of every printable ASCII character.\<close>

lemma canonicalize_ascii:
  "canonicalize (CHR '' '') = CHR '' ''"
  "canonicalize (CHR ''!'') = CHR ''!''"
  "canonicalize (CHR 0x22) = CHR 0x22"
  "canonicalize (CHR ''#'') = CHR ''#''"
  "canonicalize (CHR ''$'') = CHR ''$''"
  "canonicalize (CHR ''%'') = CHR ''%''"
  "canonicalize (CHR ''&'') = CHR ''&''"
  "canonicalize (CHR 0x27) = CHR 0x27"
  "canonicalize (CHR ''('') = CHR ''(''"
  "canonicalize (CHR '')'') = CHR '')''"
  "canonicalize (CHR ''*'') = CHR ''*''"
  "canonicalize (CHR ''+'') = CHR ''+''"
  "canonicalize (CHR '','') = CHR '',''"
  "canonicalize (CHR ''-'') = CHR ''-''"
  "canonicalize (CHR ''.'') = CHR ''.''"
  "canonicalize (CHR ''/'') = CHR ''/''"
  "canonicalize (CHR ''0'') = CHR ''0''"
  "canonicalize (CHR ''1'') = CHR ''1''"
  "canonicalize (CHR ''2'') = CHR ''2''"
  "canonicalize (CHR ''3'') = CHR ''3''"
  "canonicalize (CHR ''4'') = CHR ''4''"
  "canonicalize (CHR ''5'') = CHR ''5''"
  "canonicalize (CHR ''6'') = CHR ''6''"
  "canonicalize (CHR ''7'') = CHR ''7''"
  "canonicalize (CHR ''8'') = CHR ''8''"
  "canonicalize (CHR ''9'') = CHR ''9''"
  "canonicalize (CHR '':'') = CHR '':''"
  "canonicalize (CHR '';'') = CHR '';''"
  "canonicalize (CHR ''<'') = CHR ''<''"
  "canonicalize (CHR ''='') = CHR ''=''"
  "canonicalize (CHR ''>'') = CHR ''>''"
  "canonicalize (CHR ''?'') = CHR ''?''"
  "canonicalize (CHR ''@'') = CHR ''@''"
  "canonicalize (CHR ''A'') = CHR ''A''"
  "canonicalize (CHR ''B'') = CHR ''B''"
  "canonicalize (CHR ''C'') = CHR ''C''"
  "canonicalize (CHR ''D'') = CHR ''D''"
  "canonicalize (CHR ''E'') = CHR ''E''"
  "canonicalize (CHR ''F'') = CHR ''F''"
  "canonicalize (CHR ''G'') = CHR ''G''"
  "canonicalize (CHR ''H'') = CHR ''H''"
  "canonicalize (CHR ''I'') = CHR ''I''"
  "canonicalize (CHR ''J'') = CHR ''J''"
  "canonicalize (CHR ''K'') = CHR ''K''"
  "canonicalize (CHR ''L'') = CHR ''L''"
  "canonicalize (CHR ''M'') = CHR ''M''"
  "canonicalize (CHR ''N'') = CHR ''N''"
  "canonicalize (CHR ''O'') = CHR ''O''"
  "canonicalize (CHR ''P'') = CHR ''P''"
  "canonicalize (CHR ''Q'') = CHR ''Q''"
  "canonicalize (CHR ''R'') = CHR ''R''"
  "canonicalize (CHR ''S'') = CHR ''S''"
  "canonicalize (CHR ''T'') = CHR ''T''"
  "canonicalize (CHR ''U'') = CHR ''U''"
  "canonicalize (CHR ''V'') = CHR ''V''"
  "canonicalize (CHR ''W'') = CHR ''W''"
  "canonicalize (CHR ''X'') = CHR ''X''"
  "canonicalize (CHR ''Y'') = CHR ''Y''"
  "canonicalize (CHR ''Z'') = CHR ''Z''"
  "canonicalize (CHR ''['') = CHR ''[''"
  "canonicalize (CHR 0x5C) = CHR 0x5C"
  "canonicalize (CHR '']'') = CHR '']''"
  "canonicalize (CHR ''^'') = CHR ''^''"
  "canonicalize (CHR ''_'') = CHR ''_''"
  "canonicalize (CHR 0x60) = CHR 0x60"
  "canonicalize (CHR ''a'') = CHR ''A''"
  "canonicalize (CHR ''b'') = CHR ''B''"
  "canonicalize (CHR ''c'') = CHR ''C''"
  "canonicalize (CHR ''d'') = CHR ''D''"
  "canonicalize (CHR ''e'') = CHR ''E''"
  "canonicalize (CHR ''f'') = CHR ''F''"
  "canonicalize (CHR ''g'') = CHR ''G''"
  "canonicalize (CHR ''h'') = CHR ''H''"
  "canonicalize (CHR ''i'') = CHR ''I''"
  "canonicalize (CHR ''j'') = CHR ''J''"
  "canonicalize (CHR ''k'') = CHR ''K''"
  "canonicalize (CHR ''l'') = CHR ''L''"
  "canonicalize (CHR ''m'') = CHR ''M''"
  "canonicalize (CHR ''n'') = CHR ''N''"
  "canonicalize (CHR ''o'') = CHR ''O''"
  "canonicalize (CHR ''p'') = CHR ''P''"
  "canonicalize (CHR ''q'') = CHR ''Q''"
  "canonicalize (CHR ''r'') = CHR ''R''"
  "canonicalize (CHR ''s'') = CHR ''S''"
  "canonicalize (CHR ''t'') = CHR ''T''"
  "canonicalize (CHR ''u'') = CHR ''U''"
  "canonicalize (CHR ''v'') = CHR ''V''"
  "canonicalize (CHR ''w'') = CHR ''W''"
  "canonicalize (CHR ''x'') = CHR ''X''"
  "canonicalize (CHR ''y'') = CHR ''Y''"
  "canonicalize (CHR ''z'') = CHR ''Z''"
  "canonicalize (CHR ''{'') = CHR ''{''"
  "canonicalize (CHR ''|'') = CHR ''|''"
  "canonicalize (CHR ''}'') = CHR ''}''"
  "canonicalize (CHR ''~'') = CHR ''~''"
  by (simp_all add: canonicalize_def lower_case_def upper_case_def)

text \<open>Every pattern of the registry lies in the modelled fragment.\<close>

lemma known_tables_compile:
  "\<forall>t \<in> set KNOWN_TABLE_PATTERNS. compile Top [] (table_source t) = Some (table_regex t)"
  by (simp add: KNOWN_TABLE_PATTERNS_def table_source_def quote_class_def replace_hyphens_def
      table_regex_def table_items_def quotes_def)

lemma known_lambdas_compile:
  "\<forall>f \<in> set KNOWN_LAMBDA_PATTERNS. compile Top [] (lambda_source f) = Some (lambda_regex f)"
  by (simp add: KNOWN_LAMBDA_PATTERNS_def lambda_source_def quote_class_def
      lambda_regex_def literal_items_def quotes_def separator_def)

lemma known_events_compile:
  "\<forall>s \<in> set KNOWN_EVENT_SOURCES. compile Top [] (event_source s) = Some (event_regex s)"
  by (simp add: KNOWN_EVENT_SOURCES_def event_source_def quote_class_def
      event_regex_def literal_items_def dotted_items_def quotes_def separator_def)

lemma RegExp_test_table:
  "t \<in> set KNOWN_TABLE_PATTERNS \<Longrightarrow>
   RegExp_test (table_source t) ''gi'' l = Some (search True (table_regex t) l)"
  using known_tables_compile by (simp add: RegExp_test_def)

lemma RegExp_test_lambda:
  "f \<in> set KNOWN_LAMBDA_PATTERNS \<Longrightarrow>
   RegExp_test (lambda_source f) ''i'' l = Some (search True (lambda_regex f) l)"
  using known_lambdas_compile by (simp add: RegExp_test_def)

lemma RegExp_test_event:
  "s \<in> set KNOWN_EVENT_SOURCES \<Longrightarrow>
   RegExp_test (event_source s) ''i'' l = Some (search True (event_regex s) l)"
  using known_events_compile by (simp add: RegExp_test_def)

lemma fold_check_table:
  "set ts \<subseteq> set KNOWN_TABLE_PATTERNS \<Longrightarrow>
   fold (check_table p n l) ts acc =
     acc\<lparr>violations := violations acc @
       (if skips_tables p then []
        else map (table_finding p n l) (filter (\<lambda>t. search True (table_regex t) l) ts))\<rparr>"
  by (induction ts arbitrary: acc)
     (simp_all add: check_table_def RegExp_test_table skips_tables_def)

lemma fold_check_lambda:
  "set fs \<subseteq> set KNOWN_LAMBDA_PATTERNS \<Longrightarrow>
   fold (check_lambda p n l) fs acc =
     acc\<lparr>violations := violations acc @
       (if skips_names p then []
        else map (lambda_finding p n l) (filter (\<lambda>f. search True (lambda_regex f) l) fs))\<rparr>"
  by (induction fs arbitrary: acc)
     (simp_all add: check_lambda_def RegExp_test_lambda skips_names_def)

lemma fold_check_event:
  "set ss \<subseteq> set KNOWN_EVENT_SOURCES \<Longrightarrow>
   fold (check_event p n l) ss acc =
     acc\<lparr>warnings := warnings acc @
       (if skips_names p then []
        else map (event_finding p n l) (filter (\<lambda>s. search True (event_regex s) l) ss))\<rparr>"
  by (induction ss arbitrary: acc)
     (simp_all add: check_event_def RegExp_test_event skips_names_def)

lemma scan_line_eq:
  "scan_line p (i, l) acc =
     (if is_comment_line l then acc
      else \<lparr>violations = violations acc @
              (if skips_tables p then [] else map (table_finding p (Suc i) l) (table_hits l)) @
              (if skips_names p then [] else map (lambda_finding p (Suc i) l) (lambda_hits l)),
            warnings = warnings acc @
              (if skips_names p then [] else map (event_finding p (Suc i) l) (event_hits l))\<rparr>)"
  by (simp add: scan_line_def Let_def is_comment_line_def fold_check_table fold_check_lambda
      fold_check_event table_hits_def lambda_hits_def event_hits_def)

section \<open>The sample lines, evaluated\<close>

lemmas hits_defs = table_hits_def lambda_hits_def event_hits_def
  KNOWN_TABLE_PATTERNS_def KNOWN_LAMBDA_PATTERNS_def KNOWN_EVENT_SOURCES_def
  table_regex_def lambda_regex_def event_regex_def table_items_def literal_items_def
  dotted_items_def quotes_def separator_def canonicalize_ascii is_white_space_def

lemmas comment_defs = is_comment_line_def trim_def is_white_space_def

lemma lambda_line_hits:
  "table_hits lambda_line = []"
  "lambda_hits lambda_line = [''app-code-review'']"
  "event_hits lambda_line = []"
  "\<not> is_comment_line lambda_line"
  by (simp_all add: lambda_line_def hits_defs comment_defs)

lemma source_line_hits:
  "table_hits source_line = []"
  "lambda_hits source_line = []"
  "event_hits source_line = [''teric.orchestrator'']"
  "\<not> is_comment_line source_line"
  by (simp_all add: source_line_def hits_defs comment_defs)

lemma upper_table_line_hits:
  "table_hits upper_table_line = [''teric-agentic-work-items'']"
  "lambda_hits upper_table_line = []"
  "event_hits upper_table_line = []"
  "\<not> is_comment_line upper_table_line"
  by (simp_all add: upper_table_line_def hits_defs comment_defs)

lemma upper_lambda_line_hits:
  "table_hits upper_lambda_line = []"
  "lambda_hits upper_lambda_line = [''app-code-review'']"
  "event_hits upper_lambda_line = []"
  "\<not> is_comment_line upper_lambda_line"
  by (simp_all add: upper_lambda_line_def hits_defs comment_defs)

lemma table_line_hits:
  "table_hits table_line = [''teric-agentic-work-items'']"
  "lambda_hits table_line = []"
  "event_hits table_line = []"
  "\<not> is_comment_line table_line"
  by (simp_all add: table_line_def hits_defs comment_defs)

text \<open>Lines that yield nothing, in any file.\<close>

lemma quiet_lines:
  "scan_line p (i, ''export async function handler() {'') no_findings = no_findings"
  "scan_line p (i, ''}'') no_findings = no_findings"
  "scan_line p (i, ''// events and invocations'') no_findings = no_findings"
  "scan_line p (i, ''const detail = {};'') no_findings = no_findings"
  "scan_line p (i, []) no_findings = no_findings"
  "scan_line p (i, ''const params = {};'') no_findings = no_findings"
  by (simp_all add: scan_line_eq hits_defs comment_defs no_findings_def)

section \<open>A file, line by line\<close>

lemma no_findings_simps: "violations no_findings = []" "warnings no_findings = []"
  by (simp_all add: no_findings_def)

lemma scan_line_acc:
  "scan_line p (i, l) acc =
     \<lparr>violations = violations acc @ violations (scan_line p (i, l) no_findings),
      warnings = warnings acc @ warnings (scan_line p (i, l) no_findings)\<rparr>"
  by (simp add: scan_line_eq no_findings_def)

lemma fold_scan_line_acc:
  "fold (scan_line p) (enumerate k ls) acc =
     \<lparr>violations = violations acc @ violations (scan_lines p k ls),
      warnings = warnings acc @ warnings (scan_lines p k ls)\<rparr>"
proof (induction ls arbitrary: k acc)
  case Nil
  show ?case by (simp add: scan_lines_def no_findings_def)
next
  case (Cons l ls)
  have a: "fold (scan_line p) (enumerate k (l # ls)) acc =
           fold (scan_line p) (enumerate (Suc k) ls) (scan_line p (k, l) acc)"
    by simp
  have b: "scan_lines p k (l # ls) =
           fold (scan_line p) (enumerate (Suc k) ls) (scan_line p (k, l) no_findings)"
    by (simp add: scan_lines_def)
  show ?case
    unfolding a b Cons.IH [of "Suc k" "scan_line p (k, l) acc"]
      Cons.IH [of "Suc k" "scan_line p (k, l) no_findings"]
    using scan_line_acc [of p k l acc] by simp
qed

lemma scan_lines_Nil: "scan_lines p k [] = no_findings"
  by (simp add: scan_lines_def)

lemma scan_lines_Cons:
  "scan_lines p k (l # ls) =
     \<lparr>violations = violations (scan_line p (k, l) no_findings) @
                     violations (scan_lines p (Suc k) ls),
      warnings = warnings (scan_line p (k, l) no_findings) @
                   warnings (scan_lines p (Suc k) ls)\<rparr>"
proof -
  have "scan_lines p k (l # ls) =
        fold (scan_line p) (enumerate (Suc k) ls) (scan_line p (k, l) no_findings)"
    by (simp add: scan_lines_def)
  then show ?thesis by (simp only: fold_scan_line_acc)
qed

lemma scan_lines_append:
  "scan_lines p k (xs @ ys) =
     \<lparr>violations = violations (scan_lines p k xs) @
                     violations (scan_lines p (k + length xs) ys),
      warnings = warnings (scan_lines p k xs) @
                   warnings (scan_lines p (k + length xs) ys)\<rparr>"
proof (induction xs arbitrary: k)
  case Nil
  show ?case by (simp add: scan_lines_Nil no_findings_def)
next
  case (Cons x xs)
  show ?case
    using Cons.IH [of "Suc k"] by (simp add: scan_lines_Cons)
qed

lemma scanFile_lines:
  "readFileSync e p = Inr content \<Longrightarrow> scanFile e p c = scan_lines p 0 (split_lines content)"
  by (simp add: scanFile_def scan_lines_def no_findings_def)

lemma scanFile_at_line:
  assumes "readFileSync e p = Inr content" "split_lines content = before @ l # after"
  shows "violations (scanFile e p c) =
           violations (scan_lines p 0 before) @
           violations (scan_line p (length before, l) no_findings) @
           violations (scan_lines p (length before + 1) after)"
    and "warnings (scanFile e p c) =
           warnings (scan_lines p 0 before) @
           warnings (scan_line p (length before, l) no_findings) @
           warnings (scan_lines p (length before + 1) after)"
  using assms by (simp_all add: scanFile_lines scan_lines_append scan_lines_Cons)

section \<open>The sample runs, evaluated\<close>

lemma split_lines_handler:
  "split_lines handler_content = [''export async function handler() {'', table_line, ''}'']"
  by (simp add: split_lines_def handler_content_def table_line_def)

lemma split_lines_invoker:
  "split_lines invoker_content =
     [''// events and invocations'', ''const detail = {};'', source_line, [],
      ''const params = {};'', lambda_line]"
  by (simp add: split_lines_def invoker_content_def source_line_def lambda_line_def)

lemma demo_sources:
  "collect_dirs demo_env srcDirs [] = Inr [''src/gone.ts'', ''src/handler.ts'']"
  "root_files demo_env = Inr []"
  by (simp_all add: demo_env_def srcDirs_def path_join_def skipped_directories_def
      source_extensions_def endsWith_def root_files_def)

lemma demo_scan_handler:
  "scanFile demo_env ''src/handler.ts'' c =
     \<lparr>violations = [table_finding ''src/handler.ts'' 2 table_line ''teric-agentic-work-items''],
      warnings = []\<rparr>"
proof -
  have "\<not> skips_tables ''src/handler.ts''" "\<not> skips_names ''src/handler.ts''"
    by (simp_all add: skips_tables_def skips_names_def)
  moreover have "readFileSync demo_env ''src/handler.ts'' = Inr handler_content"
    by (simp add: demo_env_def)
  ultimately show ?thesis
    by (simp add: scanFile_lines split_lines_handler scan_lines_Cons scan_lines_Nil quiet_lines
        scan_line_eq [of _ _ table_line] table_line_hits no_findings_simps numeral_2_eq_2)
qed

lemma demo_scan_gone:
  "readFileSync demo_env ''src/gone.ts'' = Inl gone_message"
  "scanFile demo_env ''src/gone.ts'' c =
     \<lparr>violations = [], warnings = [scan_error_finding ''src/gone.ts'' gone_message]\<rparr>"
  by (simp_all add: scanFile_def demo_env_def gone_message_def)

lemma demo_config:
  "configFile_of (argv demo_env) = Some ''infra.contracts.yaml''"
  "advisoryMode_of (argv demo_env) = False"
  "parseContractsFile demo_env (Some ''infra.contracts.yaml'') =
     JObj [(''contract_version'', JNum 1)]"
  "validateDeclaredContracts demo_env c = Inr [package_finding]"
  "now_ISO demo_env = ''2025-01-01T00:00:00.000Z''"
  by (simp_all add: demo_env_def configFile_of_def advisoryMode_of_def parseContractsFile_def
      validateDeclaredContracts_def)

lemma validate_demo: "validate demo_env = Inr \<lparr>stdout = [demo_report], exit_code = 1\<rparr>"
  by (simp add: validate_def Let_def demo_config demo_sources scan_step_def
      demo_scan_handler demo_scan_gone demo_report_def)

lemma fold_scan_step_passed [simp]: "passed (fold (scan_step e c) fs r) = passed r"
  by (induction fs arbitrary: r) (simp_all add: scan_step_def Let_def)

lemma fold_scan_step_summary [simp]: "summary (fold (scan_step e c) fs r) = summary r"
  by (induction fs arbitrary: r) (simp_all add: scan_step_def Let_def)

lemma fold_scan_step_metadata [simp]: "metadata (fold (scan_step e c) fs r) = metadata r"
  by (induction fs arbitrary: r) (simp_all add: scan_step_def Let_def)



section \<open>The report\<close>

text \<open>
  C1. For every run that produces a report, \<^verbatim>\<open>passed\<close> is true if and only if the
  violations list is empty or advisory mode is enabled; the report's metadata carries
  that flag. So with advisory mode the report passes whatever was found, and without it
  one violation makes it fail.
\<close>

theorem passed_iff_clean_or_advisory:
  "r \<in> set (stdout (run_script e)) \<Longrightarrow>
   (passed r \<longleftrightarrow> violations r = [] \<or> advisoryMode_of (argv e)) \<and>
   advisoryMode (metadata r) = advisoryMode_of (argv e)"
  by (auto simp: run_script_def validate_def Let_def split: sum.splits if_splits)

theorem passed_iff_clean_or_advisory_witness:
  "demo_report \<in> set (stdout (run_script demo_env)) \<and> \<not> passed demo_report \<and>
   violations demo_report \<noteq> [] \<and> \<not> advisoryMode_of (argv demo_env)"
  using passed_iff_clean_or_advisory [of demo_report demo_env]
  by (simp add: run_script_def validate_demo) (simp add: demo_report_def)

text \<open>
  C2. The claim: in every report the summary counts equal the lengths of the two arrays.
  The early return on a configuration error prints the report with its one warning
  before the summary is calculated: the array of warnings has one element and the
  summary still counts none.
\<close>

theorem summary_stale_on_config_error:
  "\<exists>r. stdout (run_script no_config_env) = [r] \<and> length (warnings r) = 1 \<and>
       summary.warnings (summary r) = 0 \<and> total (summary r) = 0"
  by (simp add: run_script_def validate_def Let_def no_config_env_def demo_env_def
      parseContractsFile_def configFile_of_def advisoryMode_of_def)

section \<open>The exit code and exceptions\<close>

text \<open>
  C3. The claim: the exit code is 1 only without advisory mode and with a violation.
  With an empty configuration file \<^verbatim>\<open>contracts\<close> is \<^verbatim>\<open>undefined\<close>, reading
  \<^verbatim>\<open>contracts.error\<close> throws, and the process ends with exit code 1 although advisory
  mode is on and nothing was scanned.
\<close>

theorem empty_config_exits_1_in_advisory_mode:
  "advisoryMode_of (argv empty_config_env) \<and> exit_code (run_script empty_config_env) = 1"
  by (simp add: run_script_def validate_def Let_def empty_config_env_def demo_env_def
      parseContractsFile_def configFile_of_def advisoryMode_of_def)

text \<open>
  C4. The claim: no exception leaves the top-level operation, and one report is always
  written. With an empty configuration file the TypeError of \<^verbatim>\<open>contracts.error\<close> leaves
  \<^verbatim>\<open>validate\<close> and nothing is written.
\<close>

theorem empty_config_throws:
  "validate empty_config_env =
     Inl (''Cannot read properties of undefined (reading '' @ squote # ''error'' @ squote # '')'') \<and>
   stdout (run_script empty_config_env) = []"
  by (simp add: run_script_def validate_def Let_def empty_config_env_def demo_env_def
      parseContractsFile_def configFile_of_def advisoryMode_of_def)

section \<open>The configuration error short circuit\<close>

lemma get_prop_error_obj: "get_prop (JObj [(''error'', v)]) ''error'' = Inr v"
  by simp

lemma parse_unusable:
  "config_unusable e \<Longrightarrow>
   \<exists>msg. msg \<noteq> [] \<and> parseContractsFile e (configFile_of (argv e)) = JObj [(''error'', JStr msg)]"
  by (auto simp: config_unusable_def parseContractsFile_def split: option.splits sum.splits)

lemma no_config_unusable: "config_unusable no_config_env"
  by (simp add: config_unusable_def no_config_env_def demo_env_def configFile_of_def)

text \<open>
  C5. If the configuration file is absent or unparseable, the run writes one report and
  exits with code 0, whatever the advisory flag: the report has passed, no violations,
  exactly one warning, of kind \<^verbatim>\<open>config_error\<close>, and \<^verbatim>\<open>filesScanned\<close> 0. No source is looked
  at: the run is the same whatever the working directory holds.
\<close>

theorem config_error_short_circuit:
  "config_unusable e \<Longrightarrow>
   (\<exists>msg. run_script e =
      \<lparr>stdout =
         [\<lparr>violations = [], warnings = [config_error_finding (JStr msg)], passed = True,
           summary = \<lparr>total = 0, errors = 0, warnings = 0, filesScanned = 0\<rparr>,
           metadata = \<lparr>configFile = configFile_of (argv e),
                       advisoryMode = advisoryMode_of (argv e),
                       timestamp = now_ISO e, version = ''1.0.0''\<rparr>\<rparr>],
       exit_code = 0\<rparr>) \<and>
   kind (config_error_finding v) = config_error \<and>
   (\<forall>entries err. run_script (e\<lparr>cwd_entries := entries, cwd_error := err\<rparr>) = run_script e)"
proof -
  assume u: "config_unusable e"
  then obtain msg where m: "msg \<noteq> []"
    "parseContractsFile e (configFile_of (argv e)) = JObj [(''error'', JStr msg)]"
    using parse_unusable by blast
  have a: "\<exists>msg. run_script e =
      \<lparr>stdout =
         [\<lparr>violations = [], warnings = [config_error_finding (JStr msg)], passed = True,
           summary = \<lparr>total = 0, errors = 0, warnings = 0, filesScanned = 0\<rparr>,
           metadata = \<lparr>configFile = configFile_of (argv e),
                       advisoryMode = advisoryMode_of (argv e),
                       timestamp = now_ISO e, version = ''1.0.0''\<rparr>\<rparr>],
       exit_code = 0\<rparr>"
    using m by (auto simp: run_script_def validate_def Let_def)
  have b: "run_script (e\<lparr>cwd_entries := entries, cwd_error := err\<rparr>) = run_script e"
    for entries err
  proof -
    have "parseContractsFile (e\<lparr>cwd_entries := entries, cwd_error := err\<rparr>) p
          = parseContractsFile e p" for p
      by (simp add: parseContractsFile_def split: option.splits sum.splits)
    then show ?thesis
      using m by (simp add: run_script_def validate_def Let_def)
  qed
  show ?thesis using a b by (simp add: config_error_finding_def)
qed

theorem config_error_short_circuit_witness:
  "config_unusable no_config_env \<and>
   stdout (run_script no_config_env) =
     [\<lparr>violations = [],
       warnings = [config_error_finding (JStr ''Config file not found: infra.contracts.yaml'')],
       passed = True,
       summary = \<lparr>total = 0, errors = 0, warnings = 0, filesScanned = 0\<rparr>,
       metadata = \<lparr>configFile = Some ''infra.contracts.yaml'', advisoryMode = False,
                   timestamp = ''2025-01-01T00:00:00.000Z'', version = ''1.0.0''\<rparr>\<rparr>] \<and>
   exit_code (run_script no_config_env) = 0"
  using config_error_short_circuit [OF no_config_unusable]
  by (simp add: no_config_unusable)
     (simp add: run_script_def validate_def Let_def no_config_env_def demo_env_def
       parseContractsFile_def configFile_of_def advisoryMode_of_def)

section \<open>Read failures\<close>



section \<open>Letter case\<close>

lemma length_cases: "length lower_case = length upper_case"
  by (simp add: lower_case_def upper_case_def)

lemma canonicalize_fixed: "c \<notin> set lower_case \<Longrightarrow> canonicalize c = c"
  using map_of_zip_is_None [OF length_cases, of c] by (simp add: canonicalize_def)

lemma canonicalize_range: "canonicalize c \<in> set upper_case \<or> canonicalize c = c"
proof (cases "map_of (zip lower_case upper_case) c")
  case None
  then show ?thesis by (simp add: canonicalize_def)
next
  case (Some u)
  then have "(c, u) \<in> set (zip lower_case upper_case)" by (rule map_of_SomeD)
  then have "u \<in> set upper_case" by (rule set_zip_rightD)
  with Some show ?thesis by (simp add: canonicalize_def)
qed

lemma canonicalize_eq_other: "\<not> is_letter x \<Longrightarrow> canonicalize c = x \<longleftrightarrow> c = x"
  using canonicalize_range [of c] canonicalize_fixed [of x] by (auto simp: is_letter_def)

lemma not_letters:
  "\<not> is_letter (CHR 0x09)" "\<not> is_letter (CHR 0x0A)" "\<not> is_letter (CHR 0x0B)"
  "\<not> is_letter (CHR 0x0C)" "\<not> is_letter (CHR 0x0D)" "\<not> is_letter (CHR 0x20)"
  "\<not> is_letter (CHR 0xA0)" "\<not> is_letter squote" "\<not> is_letter dquote"
  "\<not> is_letter backtick" "\<not> is_letter (CHR ''/'')" "\<not> is_letter (CHR ''#'')"
  "\<not> is_letter (CHR ''*'')" "\<not> is_letter (CHR ''-'')"
  by (simp_all add: is_letter_def lower_case_def upper_case_def)

lemma is_white_space_canonicalize:
  "is_white_space c \<longleftrightarrow> canonicalize c \<in>
     set [CHR 0x09, CHR 0x0A, CHR 0x0B, CHR 0x0C, CHR 0x0D, CHR 0x20, CHR 0xA0]"
  by (simp add: is_white_space_def canonicalize_eq_other not_letters)

lemma is_white_space_canon:
  "canonicalize c = canonicalize d \<Longrightarrow> is_white_space c \<longleftrightarrow> is_white_space d"
  by (simp add: is_white_space_canonicalize)

lemma line_end_canonicalize:
  "c = CHR 0x0A \<longleftrightarrow> canonicalize c = CHR 0x0A"
  "c = CHR 0x0D \<longleftrightarrow> canonicalize c = CHR 0x0D"
  by (simp_all add: canonicalize_eq_other not_letters)

lemma atom_ok_canon:
  "canonicalize c = canonicalize d \<Longrightarrow> atom_ok True a c \<longleftrightarrow> atom_ok True a d"
proof (cases a)
  case (Lit p) then show "canonicalize c = canonicalize d \<Longrightarrow> ?thesis" by simp
next
  case Dot
  assume "canonicalize c = canonicalize d"
  then show ?thesis using Dot
    by (simp add: line_end_canonicalize [of c] line_end_canonicalize [of d])
next
  case (Class ms sp)
  assume "canonicalize c = canonicalize d"
  then show ?thesis using Class by (simp add: is_white_space_canonicalize)
qed

lemma cons_canon:
  "map canonicalize (c # s) = map canonicalize l' \<Longrightarrow>
   \<exists>d s'. l' = d # s' \<and> canonicalize c = canonicalize d \<and>
          map canonicalize s = map canonicalize s'"
  by (cases l') auto

lemma match_here_canon:
  "map canonicalize l = map canonicalize l' \<Longrightarrow> match_here True r l = match_here True r l'"
proof (induction r arbitrary: l l')
  case Nil
  show ?case by simp
next
  case (Cons item r)
  note IH = Cons.IH and prems = Cons.prems
  obtain a q where item: "item = (a, q)" by (cases item)
  show ?case
  proof (cases q)
    case Once
    show ?thesis
    proof (cases l)
      case Nil
      with prems have "l' = []" by simp
      with Nil item Once show ?thesis by simp
    next
      case (Cons c s)
      with prems obtain d s' where l': "l' = d # s'" "canonicalize c = canonicalize d"
        "map canonicalize s = map canonicalize s'" using cons_canon by blast
      show ?thesis
        using IH [OF l'(3)] atom_ok_canon [OF l'(2), of a] by (simp add: Cons l'(1) item Once)
    qed
  next
    case Optional
    show ?thesis
    proof (cases l)
      case Nil
      with prems have "l' = []" by simp
      with Nil item Optional show ?thesis by simp
    next
      case (Cons c s)
      with prems obtain d s' where l': "l' = d # s'" "canonicalize c = canonicalize d"
        "map canonicalize s = map canonicalize s'" using cons_canon by blast
      have "map canonicalize (c # s) = map canonicalize (d # s')"
        using prems by (simp add: Cons l'(1))
      then have whole: "match_here True r (c # s) = match_here True r (d # s')"
        by (rule IH)
      show ?thesis
        using IH [OF l'(3)] whole atom_ok_canon [OF l'(2), of a]
        by (simp add: Cons l'(1) item Optional)
    qed
  next
    case OneOrMore
    have "map canonicalize k = map canonicalize k' \<Longrightarrow>
          match_here True ((a, OneOrMore) # r) k = match_here True ((a, OneOrMore) # r) k'"
      for k k'
    proof (induction k arbitrary: k')
      case Nil
      then show ?case by simp
    next
      case (Cons c s)
      then obtain d s' where k': "k' = d # s'" "canonicalize c = canonicalize d"
        "map canonicalize s = map canonicalize s'" using cons_canon by blast
      show ?case
        using Cons.IH [OF k'(3)] IH [OF k'(3)] atom_ok_canon [OF k'(2), of a]
        by (simp add: k'(1))
    qed
    from this [OF prems] item OneOrMore show ?thesis by simp
  qed
qed

lemma search_canon:
  "map canonicalize l = map canonicalize l' \<Longrightarrow> search True r l = search True r l'"
proof (induction l arbitrary: l')
  case Nil
  then show ?case by simp
next
  case (Cons c s)
  then obtain d s' where l': "l' = d # s'" "canonicalize c = canonicalize d"
    "map canonicalize s = map canonicalize s'" using cons_canon by blast
  have "map canonicalize (c # s) = map canonicalize (d # s')"
    using Cons.prems by (simp add: l'(1))
  then have "match_here True r (c # s) = match_here True r (d # s')"
    by (rule match_here_canon)
  then show ?case using Cons.IH [OF l'(3)] by (simp add: l'(1))
qed


lemma dropWhile_canon:
  "map canonicalize l = map canonicalize l' \<Longrightarrow>
   map canonicalize (dropWhile is_white_space l) =
   map canonicalize (dropWhile is_white_space l')"
proof (induction l arbitrary: l')
  case Nil
  then show ?case by simp
next
  case (Cons c s)
  then obtain d s' where l': "l' = d # s'" "canonicalize c = canonicalize d"
    "map canonicalize s = map canonicalize s'" using cons_canon by blast
  show ?case
    using Cons.IH [OF l'(3)] is_white_space_canon [OF l'(2)] l'(2,3) by (simp add: l'(1))
qed

lemma trim_canon:
  "map canonicalize l = map canonicalize l' \<Longrightarrow>
   map canonicalize (trim l) = map canonicalize (trim l')"
proof -
  assume "map canonicalize l = map canonicalize l'"
  then have "map canonicalize (dropWhile is_white_space l) =
             map canonicalize (dropWhile is_white_space l')"
    by (rule dropWhile_canon)
  then have "map canonicalize (rev (dropWhile is_white_space l)) =
             map canonicalize (rev (dropWhile is_white_space l'))"
    by (simp add: rev_map [symmetric])
  then have "map canonicalize (dropWhile is_white_space (rev (dropWhile is_white_space l))) =
             map canonicalize (dropWhile is_white_space (rev (dropWhile is_white_space l')))"
    by (rule dropWhile_canon)
  then show ?thesis by (simp add: trim_def rev_map [symmetric])
qed

lemma startsWith_canon:
  "map canonicalize s = map canonicalize s' \<Longrightarrow> \<forall>x \<in> set p. \<not> is_letter x \<Longrightarrow>
   startsWith s p = startsWith s' p"
proof (induction p arbitrary: s s')
  case Nil
  show ?case by simp
next
  case (Cons x p)
  show ?case
  proof (cases s)
    case Nil
    with Cons.prems have "s' = []" by simp
    with Nil show ?thesis by simp
  next
    case (Cons c t)
    with Cons.prems obtain d t' where s': "s' = d # t'" "canonicalize c = canonicalize d"
      "map canonicalize t = map canonicalize t'" using cons_canon by blast
    have x: "\<not> is_letter x" and p: "\<forall>x \<in> set p. \<not> is_letter x"
      using Cons.prems by simp_all
    have "c = x \<longleftrightarrow> d = x"
      using canonicalize_eq_other [OF x, of c] canonicalize_eq_other [OF x, of d] s'(2)
      by simp
    then show ?thesis
      using Cons.IH [OF s'(3) p] by (simp add: Cons s'(1))
  qed
qed

lemma is_comment_line_canon:
  "map canonicalize l = map canonicalize l' \<Longrightarrow> is_comment_line l = is_comment_line l'"
proof -
  assume "map canonicalize l = map canonicalize l'"
  then have t: "map canonicalize (trim l) = map canonicalize (trim l')" by (rule trim_canon)
  have "startsWith (trim l) ''//'' = startsWith (trim l') ''//''"
    "startsWith (trim l) ''#'' = startsWith (trim l') ''#''"
    "startsWith (trim l) ''*'' = startsWith (trim l') ''*''"
    by (rule startsWith_canon [OF t], simp add: not_letters)+
  then show ?thesis by (simp add: is_comment_line_def)
qed

lemma hits_canon:
  assumes "map canonicalize l = map canonicalize l'"
  shows "table_hits l = table_hits l'" "lambda_hits l = lambda_hits l'"
    "event_hits l = event_hits l'"
  using search_canon [OF assms] by (simp_all add: table_hits_def lambda_hits_def event_hits_def)

lemma without_snippet_findings:
  "without_snippet (table_finding p n l t) = without_snippet (table_finding p n l' t)"
  "without_snippet (lambda_finding p n l t) = without_snippet (lambda_finding p n l' t)"
  "without_snippet (event_finding p n l t) = without_snippet (event_finding p n l' t)"
  by (simp_all add: without_snippet_def table_finding_def lambda_finding_def event_finding_def)

lemma snippet_findings:
  "snippet (table_finding p n l t) = Some (take 100 (trim l))"
  "snippet (lambda_finding p n l t) = Some (take 100 (trim l))"
  "snippet (event_finding p n l t) = Some (take 100 (trim l))"
  by (simp_all add: table_finding_def lambda_finding_def event_finding_def)

section \<open>The three checks\<close>

text \<open>
  C7. The claim: the Lambda-name and event-source checks skip the same paths as the
  table-name check, paths containing \<^verbatim>\<open>__tests__\<close> included. The table check tests the
  path for four markers, the other two for three: \<^verbatim>\<open>__tests__\<close> is missing. In a file
  under \<^verbatim>\<open>__tests__\<close> the function-name line is a violation and the event-source line a
  warning, while the table-name line is skipped.
\<close>

theorem tests_directory_not_skipped_for_names:
  "includes_str ''src/__tests__/invoker.ts'' ''__tests__'' \<and>
   scan_line ''src/__tests__/invoker.ts'' (0, lambda_line) no_findings =
     \<lparr>violations = [lambda_finding ''src/__tests__/invoker.ts'' 1 lambda_line
                      ''app-code-review''],
      warnings = []\<rparr> \<and>
   scan_line ''src/__tests__/invoker.ts'' (0, source_line) no_findings =
     \<lparr>violations = [],
      warnings = [event_finding ''src/__tests__/invoker.ts'' 1 source_line
                    ''teric.orchestrator'']\<rparr> \<and>
   scan_line ''src/__tests__/invoker.ts'' (0, table_line) no_findings = no_findings"
  by (simp add: scan_line_eq lambda_line_hits source_line_hits table_line_hits no_findings_def
      skips_names_def skips_tables_def)

text \<open>
  C8. In a file that is neither a contract definition nor a test, the line
  \<^verbatim>\<open>FunctionName: 'app-code-review'\<close> yields exactly one finding, a violation of kind
  \<^verbatim>\<open>hardcoded_lambda_name\<close> and severity error, and the line \<^verbatim>\<open>Source: 'teric.orchestrator'\<close>
  yields exactly one finding, a warning of kind \<^verbatim>\<open>hardcoded_event_source\<close>, in the array
  of warnings and not among the violations. Of \<^verbatim>\<open>scanFile\<close>: when the lines of the file
  are \<open>before\<close>, the line and \<open>after\<close>, the findings of the file are those of the lines
  before, this one finding with the 1-based number of the line, and those of the lines
  after.
\<close>

theorem severity_tiers:
  "readFileSync e p = Inr content \<Longrightarrow>
   \<not> includes_str p ''/contracts/'' \<Longrightarrow> \<not> includes_str p ''.test.'' \<Longrightarrow>
   \<not> includes_str p ''.spec.'' \<Longrightarrow>
   (split_lines content = before @ lambda_line # after \<longrightarrow>
      violations (scanFile e p c) =
        violations (scan_lines p 0 before) @
        lambda_finding p (length before + 1) lambda_line ''app-code-review'' #
        violations (scan_lines p (length before + 1) after) \<and>
      warnings (scanFile e p c) =
        warnings (scan_lines p 0 before) @ warnings (scan_lines p (length before + 1) after)) \<and>
   kind (lambda_finding p n lambda_line ''app-code-review'') = hardcoded_lambda_name \<and>
   severity (lambda_finding p n lambda_line ''app-code-review'') = Error \<and>
   line_no (lambda_finding p n lambda_line ''app-code-review'') = Some n \<and>
   (split_lines content = before @ source_line # after \<longrightarrow>
      violations (scanFile e p c) =
        violations (scan_lines p 0 before) @ violations (scan_lines p (length before + 1) after) \<and>
      warnings (scanFile e p c) =
        warnings (scan_lines p 0 before) @
        event_finding p (length before + 1) source_line ''teric.orchestrator'' #
        warnings (scan_lines p (length before + 1) after)) \<and>
   kind (event_finding p n source_line ''teric.orchestrator'') = hardcoded_event_source \<and>
   severity (event_finding p n source_line ''teric.orchestrator'') = Warning \<and>
   line_no (event_finding p n source_line ''teric.orchestrator'') = Some n"
proof -
  assume rd: "readFileSync e p = Inr content"
    and p: "\<not> includes_str p ''/contracts/''" "\<not> includes_str p ''.test.''"
      "\<not> includes_str p ''.spec.''"
  have one: "scan_line p (i, lambda_line) no_findings =
      \<lparr>violations = [lambda_finding p (i + 1) lambda_line ''app-code-review''], warnings = []\<rparr>"
    "scan_line p (i, source_line) no_findings =
      \<lparr>violations = [],
       warnings = [event_finding p (i + 1) source_line ''teric.orchestrator'']\<rparr>" for i
    using p
    by (simp_all add: scan_line_eq lambda_line_hits source_line_hits no_findings_def
        skips_names_def)
  show ?thesis
    using scanFile_at_line [OF rd, of before lambda_line after c]
      scanFile_at_line [OF rd, of before source_line after c]
    by (simp add: one lambda_finding_def event_finding_def)
qed

theorem severity_tiers_witness:
  "readFileSync invoker_env ''src/invoker.ts'' = Inr invoker_content \<and>
   \<not> includes_str ''src/invoker.ts'' ''/contracts/'' \<and>
   \<not> includes_str ''src/invoker.ts'' ''.test.'' \<and>
   \<not> includes_str ''src/invoker.ts'' ''.spec.'' \<and>
   split_lines invoker_content =
     [''// events and invocations'', ''const detail = {};'', source_line, [],
      ''const params = {};'', lambda_line] \<and>
   violations (scanFile invoker_env ''src/invoker.ts'' JNull) =
     [lambda_finding ''src/invoker.ts'' 6 lambda_line ''app-code-review''] \<and>
   warnings (scanFile invoker_env ''src/invoker.ts'' JNull) =
     [event_finding ''src/invoker.ts'' 3 source_line ''teric.orchestrator'']"
proof -
  have r: "readFileSync invoker_env ''src/invoker.ts'' = Inr invoker_content"
    by (simp add: invoker_env_def)
  have p: "\<not> includes_str ''src/invoker.ts'' ''/contracts/''"
    "\<not> includes_str ''src/invoker.ts'' ''.test.''"
    "\<not> includes_str ''src/invoker.ts'' ''.spec.''"
    by simp_all
  have s: "split_lines invoker_content =
     [''// events and invocations'', ''const detail = {};'', source_line, [],
      ''const params = {};''] @ lambda_line # []"
    by (simp add: split_lines_invoker)
  have one: "scan_line ''src/invoker.ts'' (i, source_line) no_findings =
      \<lparr>violations = [],
       warnings = [event_finding ''src/invoker.ts'' (i + 1) source_line
                     ''teric.orchestrator'']\<rparr>" for i
    by (simp add: scan_line_eq source_line_hits no_findings_def skips_names_def)
  have "violations (scanFile invoker_env ''src/invoker.ts'' JNull) =
     [lambda_finding ''src/invoker.ts'' 6 lambda_line ''app-code-review'']"
    "warnings (scanFile invoker_env ''src/invoker.ts'' JNull) =
     [event_finding ''src/invoker.ts'' 3 source_line ''teric.orchestrator'']"
    using severity_tiers [OF r p, of "[''// events and invocations'', ''const detail = {};'',
        source_line, [], ''const params = {};'']" "[]" JNull, THEN conjunct1, rule_format, OF s]
    by (simp_all add: scan_lines_Cons scan_lines_Nil quiet_lines one no_findings_simps
        eval_nat_numeral)
  then show ?thesis using r p split_lines_invoker by simp
qed

text \<open>
  C10, as stated: a line with a known identifier in another letter case produces the
  same finding as the lower-case spelling. It does not: the snippet of a finding is the
  line as written.
\<close>

theorem snippet_keeps_the_case:
  "scan_line ''src/handler.ts'' (0, upper_table_line) no_findings \<noteq>
   scan_line ''src/handler.ts'' (0, table_line) no_findings"
  by (simp add: scan_line_eq upper_table_line_hits table_line_hits no_findings_def
      skips_names_def skips_tables_def table_finding_def)
     (simp add: upper_table_line_def table_line_def trim_def is_white_space_def)

text \<open>
  C10, amended. All three checks match case-insensitively: two lines that differ in
  letter case only produce the same findings in every field but the snippet, which is
  the first 100 characters of the trimmed line as written. Every finding is built from
  a name of the registry, so its message and contract path are in the registry's
  spelling.
\<close>

theorem case_insensitive_up_to_snippet:
  "same_modulo_case l l' \<Longrightarrow>
   map without_snippet (violations (scan_line p (i, l) no_findings)) =
     map without_snippet (violations (scan_line p (i, l') no_findings)) \<and>
   map without_snippet (warnings (scan_line p (i, l) no_findings)) =
     map without_snippet (warnings (scan_line p (i, l') no_findings)) \<and>
   (\<forall>f \<in> set (violations (scan_line p (i, l) no_findings)) \<union>
           set (warnings (scan_line p (i, l) no_findings)).
      snippet f = Some (take 100 (trim l))) \<and>
   set (violations (scan_line p (i, l) no_findings)) \<subseteq>
     table_finding p (Suc i) l ` set KNOWN_TABLE_PATTERNS \<union>
     lambda_finding p (Suc i) l ` set KNOWN_LAMBDA_PATTERNS \<and>
   set (warnings (scan_line p (i, l) no_findings)) \<subseteq>
     event_finding p (Suc i) l ` set KNOWN_EVENT_SOURCES"
proof -
  assume "same_modulo_case l l'"
  then have eq: "map canonicalize l = map canonicalize l'" by (simp add: same_modulo_case_def)
  have same: "map without_snippet (violations (scan_line p (i, l) no_findings)) =
     map without_snippet (violations (scan_line p (i, l') no_findings))"
    "map without_snippet (warnings (scan_line p (i, l) no_findings)) =
     map without_snippet (warnings (scan_line p (i, l') no_findings))"
    using without_snippet_findings [of p "Suc i" l _ l']
    by (simp_all add: scan_line_eq hits_canon [OF eq] is_comment_line_canon [OF eq]
        no_findings_def)
  have snip: "\<forall>f \<in> set (violations (scan_line p (i, l) no_findings)) \<union>
           set (warnings (scan_line p (i, l) no_findings)).
      snippet f = Some (take 100 (trim l))"
    by (auto simp: scan_line_eq no_findings_def snippet_findings)
  have reg: "set (violations (scan_line p (i, l) no_findings)) \<subseteq>
     table_finding p (Suc i) l ` set KNOWN_TABLE_PATTERNS \<union>
     lambda_finding p (Suc i) l ` set KNOWN_LAMBDA_PATTERNS"
    "set (warnings (scan_line p (i, l) no_findings)) \<subseteq>
     event_finding p (Suc i) l ` set KNOWN_EVENT_SOURCES"
    by (auto simp: scan_line_eq no_findings_def table_hits_def lambda_hits_def event_hits_def)
  show ?thesis using same snip reg by blast
qed

theorem case_insensitive_up_to_snippet_witness:
  "same_modulo_case upper_table_line table_line \<and>
   violations (scan_line ''src/handler.ts'' (0, upper_table_line) no_findings) =
     [table_finding ''src/handler.ts'' 1 upper_table_line ''teric-agentic-work-items''] \<and>
   violations (scan_line ''src/handler.ts'' (0, table_line) no_findings) =
     [table_finding ''src/handler.ts'' 1 table_line ''teric-agentic-work-items''] \<and>
   same_modulo_case upper_lambda_line (''FunctionName: '' @ dquote # ''app-code-review'' @ [dquote]) \<and>
   violations (scan_line ''src/handler.ts'' (0, upper_lambda_line) no_findings) =
     [lambda_finding ''src/handler.ts'' 1 upper_lambda_line ''app-code-review'']"
proof -
  have s: "same_modulo_case upper_table_line table_line"
    "same_modulo_case upper_lambda_line (''FunctionName: '' @ dquote # ''app-code-review'' @ [dquote])"
    by (simp_all add: same_modulo_case_def upper_table_line_def table_line_def
        upper_lambda_line_def canonicalize_ascii)
  show ?thesis
    using case_insensitive_up_to_snippet [OF s(1), of "''src/handler.ts''" 0] s
    by (simp add: scan_line_eq upper_table_line_hits table_line_hits upper_lambda_line_hits
        no_findings_def skips_names_def skips_tables_def)
qed

section \<open>The table-name pattern\<close>

lemma table_items_simps:
  "table_items [] = []"
  "table_items (c # t) =
     (if c = CHR ''-'' then (Class ''-'' False, Optional) else (Lit c, Once)) # table_items t"
  by (simp_all add: table_items_def)

lemma atom_ok_hyphen: "atom_ok True (Class ''-'' False) c \<longleftrightarrow> canonicalize c = canonicalize (CHR ''-'')"
  by simp

lemma atom_ok_quotes: "atom_ok True quotes c \<longleftrightarrow> c \<in> quote_chars"
  using canonicalize_eq_other [of squote c] canonicalize_eq_other [of dquote c]
    canonicalize_eq_other [of backtick c] canonicalize_fixed [of squote]
  by (simp add: quotes_def quote_chars_def not_letters canonicalize_ascii)

lemma search_append: "match_here ic r s \<Longrightarrow> search ic r (pre @ s)"
proof (induction pre)
  case Nil
  then show ?case by (cases s) simp_all
next
  case (Cons c pre)
  then show ?case by simp
qed

lemma search_skip:
  "\<forall>c \<in> set s1. \<not> atom_ok ic a c \<Longrightarrow>
   search ic ((a, Once) # r) (s1 @ s2) = search ic ((a, Once) # r) s2"
  by (induction s1) simp_all

lemma search_no_start:
  "\<forall>c \<in> set s. \<not> atom_ok ic a c \<Longrightarrow> \<not> search ic ((a, Once) # r) s"
  by (induction s) simp_all

lemma match_items_complete:
  "w \<in> set (omit_hyphens t) \<Longrightarrow> match_here True r s \<Longrightarrow>
   match_here True (table_items t @ r) (w @ s)"
proof (induction t arbitrary: w)
  case Nil
  then show ?case by (simp add: table_items_simps)
next
  case (Cons c t)
  note IH = Cons.IH and prems = Cons.prems
  show ?case
  proof (cases "c = CHR ''-''")
    case False
    with prems(1) obtain w' where w: "w = c # w'" "w' \<in> set (omit_hyphens t)" by auto
    have "match_here True (table_items t @ r) (w' @ s)" using w(2) prems(2) by (rule IH)
    then show ?thesis using False by (simp add: w(1) table_items_simps)
  next
    case True
    with prems(1) consider w' where "w = c # w'" "w' \<in> set (omit_hyphens t)"
      | "w \<in> set (omit_hyphens t)" by auto
    then show ?thesis
    proof cases
      case 1
      have "match_here True (table_items t @ r) (w' @ s)" using 1(2) prems(2) by (rule IH)
      then show ?thesis using True by (simp add: 1(1) table_items_simps)
    next
      case 2
      have m: "match_here True (table_items t @ r) (w @ s)" using 2 prems(2) by (rule IH)
      show ?thesis
      proof (cases "w @ s")
        case Nil
        with m True show ?thesis by (simp add: table_items_simps)
      next
        case (Cons d k)
        with m True show ?thesis by (simp add: table_items_simps)
      qed
    qed
  qed
qed

lemma match_items_sound:
  "match_here True (table_items t @ r) s \<Longrightarrow>
   \<exists>w k. s = w @ k \<and> (\<exists>w0 \<in> set (omit_hyphens t). map canonicalize w = map canonicalize w0) \<and>
         match_here True r k"
proof (induction t arbitrary: s)
  case Nil
  then have "s = [] @ s \<and> (\<exists>w0 \<in> set (omit_hyphens []). map canonicalize [] = map canonicalize w0)
             \<and> match_here True r s"
    by (simp add: table_items_simps)
  then show ?case by blast
next
  case (Cons c t)
  note IH = Cons.IH and prems = Cons.prems
  have step: "\<exists>w k. d # s' = w @ k \<and>
        (\<exists>w0 \<in> set (omit_hyphens (c # t)). map canonicalize w = map canonicalize w0) \<and>
        match_here True r k"
    if d: "canonicalize d = canonicalize c" and m: "match_here True (table_items t @ r) s'"
    for d s'
  proof -
    from IH [OF m] obtain w k w0 where wk: "s' = w @ k" "w0 \<in> set (omit_hyphens t)"
      "map canonicalize w = map canonicalize w0" "match_here True r k" by blast
    have "d # s' = (d # w) @ k" using wk(1) by simp
    moreover have "c # w0 \<in> set (omit_hyphens (c # t))" using wk(2) by simp
    moreover have "map canonicalize (d # w) = map canonicalize (c # w0)" using d wk(3) by simp
    ultimately show ?thesis using wk(4) by blast
  qed
  have skip: "\<exists>w k. s = w @ k \<and>
        (\<exists>w0 \<in> set (omit_hyphens (c # t)). map canonicalize w = map canonicalize w0) \<and>
        match_here True r k"
    if c: "c = CHR ''-''" and m: "match_here True (table_items t @ r) s"
  proof -
    from IH [OF m] obtain w k w0 where wk: "s = w @ k" "w0 \<in> set (omit_hyphens t)"
      "map canonicalize w = map canonicalize w0" "match_here True r k" by blast
    have "w0 \<in> set (omit_hyphens (c # t))" using wk(2) c by simp
    then show ?thesis using wk(1,3,4) by blast
  qed
  show ?case
  proof (cases "c = CHR ''-''")
    case False
    with prems obtain d s' where s: "s = d # s'" "canonicalize d = canonicalize c"
      "match_here True (table_items t @ r) s'"
      by (cases s) (simp_all add: table_items_simps split: if_splits)
    show ?thesis using step [OF s(2,3)] by (simp add: s(1))
  next
    case True
    show ?thesis
    proof (cases s)
      case Nil
      with prems True have "match_here True (table_items t @ r) s" by (simp add: table_items_simps)
      then show ?thesis by (rule skip [OF True])
    next
      case (Cons d s')
      with prems True consider
        "canonicalize d = canonicalize c" "match_here True (table_items t @ r) s'"
        | "match_here True (table_items t @ r) s"
        by (auto simp: table_items_simps split: if_splits)
      then show ?thesis
      proof cases
        case 1
        then show ?thesis using step by (simp add: Cons)
      next
        case 2
        then show ?thesis by (rule skip [OF True])
      qed
    qed
  qed
qed


lemma known_tables_quote_free:
  "\<forall>t \<in> set KNOWN_TABLE_PATTERNS. \<forall>c \<in> set t. c \<notin> quote_chars"
  by (simp add: KNOWN_TABLE_PATTERNS_def quote_chars_def)

lemma quote_free_no_quote_match:
  "ext \<noteq> [] \<Longrightarrow> set ext \<inter> quote_chars = {} \<Longrightarrow>
   match_here True ((quotes, Once) # r) (ext @ k) = False"
  by (cases ext) (auto simp: atom_ok_quotes)

lemma no_extension_match:
  assumes "ext \<noteq> []" "set ext \<inter> quote_chars = {}"
  shows "\<forall>t \<in> set KNOWN_TABLE_PATTERNS. \<forall>t' \<in> set KNOWN_TABLE_PATTERNS.
           \<not> match_here True (table_items t' @ [(quotes, Once)]) (t @ ext @ k)"
  using quote_free_no_quote_match [OF assms]
  by (simp add: KNOWN_TABLE_PATTERNS_def table_items_simps canonicalize_ascii atom_ok_quotes
      quote_chars_def)

lemma no_match_without_quote:
  assumes "set post \<inter> quote_chars = {}"
  shows "\<not> match_here True (table_items t @ [(quotes, Once)]) post"
proof
  assume "match_here True (table_items t @ [(quotes, Once)]) post"
  from match_items_sound [OF this] obtain w k where wk: "post = w @ k"
    "match_here True [(quotes, Once)] k" by blast
  from wk(2) obtain q k' where "k = q # k'" "q \<in> quote_chars"
    by (cases k) (simp_all add: atom_ok_quotes split: if_splits)
  with wk(1) assms show False by auto
qed

lemma table_regex_not_extended:
  assumes t: "t \<in> set KNOWN_TABLE_PATTERNS" and t': "t' \<in> set KNOWN_TABLE_PATTERNS"
    and ext: "ext \<noteq> []" "set ext \<inter> quote_chars = {}"
    and pre: "set pre \<inter> quote_chars = {}" and post: "set post \<inter> quote_chars = {}"
  shows "\<not> search True (table_regex t') (pre @ q1 # t @ ext @ q2 # post)"
proof -
  let ?R = "table_regex t'"
  have R: "?R = (quotes, Once) # (table_items t' @ [(quotes, Once)])"
    by (simp add: table_regex_def)
  have tq: "\<forall>c \<in> set (t @ ext). \<not> atom_ok True quotes c"
    using known_tables_quote_free t ext(2) by (auto simp: atom_ok_quotes)
  have pq: "\<forall>c \<in> set pre. \<not> atom_ok True quotes c"
    using pre by (auto simp: atom_ok_quotes)
  have sq: "\<forall>c \<in> set post. \<not> atom_ok True quotes c"
    using post by (auto simp: atom_ok_quotes)
  have 1: "search True ?R (pre @ q1 # t @ ext @ q2 # post) =
           search True ?R (q1 # t @ ext @ q2 # post)"
    unfolding R using pq by (rule search_skip)
  have 2: "\<not> match_here True ?R (q1 # t @ ext @ q2 # post)"
    unfolding R using no_extension_match [OF ext, of "q2 # post"] t t' by simp
  have 3: "search True ?R ((t @ ext) @ q2 # post) = search True ?R (q2 # post)"
    unfolding R using tq by (rule search_skip)
  have 4: "\<not> match_here True ?R (q2 # post)"
    unfolding R using no_match_without_quote [OF post, of t'] by simp
  have 5: "\<not> search True ?R post"
    unfolding R using sq by (rule search_no_start)
  show ?thesis using 1 2 3 4 5 by simp
qed

lemma table_regex_tolerates_hyphens:
  assumes "w \<in> set (omit_hyphens t)" "q1 \<in> quote_chars" "q2 \<in> quote_chars"
  shows "search True (table_regex t) (pre @ q1 # w @ q2 # post)"
proof -
  have "match_here True [(quotes, Once)] (q2 # post)"
    using assms(3) by (simp add: atom_ok_quotes)
  with assms(1) have "match_here True (table_items t @ [(quotes, Once)]) (w @ q2 # post)"
    by (rule match_items_complete)
  then have "match_here True (table_regex t) (q1 # w @ q2 # post)"
    using assms(2) by (simp add: table_regex_def atom_ok_quotes)
  then show ?thesis by (rule search_append)
qed

lemma overmatch_line_hits:
  "table_hits overmatch_line = [''teric-agentic-work-items'']"
  "lambda_hits overmatch_line = []"
  "event_hits overmatch_line = []"
  "\<not> is_comment_line overmatch_line"
  by (simp_all add: overmatch_line_def hits_defs comment_defs)

lemma work_items_known: "''teric-agentic-work-items'' \<in> set KNOWN_TABLE_PATTERNS"
  by (simp add: KNOWN_TABLE_PATTERNS_def)

text \<open>
  C6, as stated: a quoted string that strictly extends a known table name does not
  match. The pattern does not pair its quotes: a double-quoted string that goes on
  after the name with a single quote matches, and the line is a violation.
\<close>

theorem quotes_are_not_paired:
  "RegExp_test (table_source ''teric-agentic-work-items'') ''gi'' overmatch_line = Some True \<and>
   violations (scan_line ''src/handler.ts'' (0, overmatch_line) no_findings) =
     [table_finding ''src/handler.ts'' 1 overmatch_line ''teric-agentic-work-items'']"
proof -
  have "search True (table_regex ''teric-agentic-work-items'') overmatch_line"
    by (simp add: overmatch_line_def hits_defs)
  then show ?thesis
    by (simp add: RegExp_test_table [OF work_items_known] scan_line_eq overmatch_line_hits
        no_findings_def skips_tables_def skips_names_def)
qed

text \<open>
  C6, amended. A known table name between two quote characters (single, double or
  back-tick) matches with any of its hyphens left out, wherever it stands in the line.
  The two quote characters need not be the same. A quoted string that extends a known
  table name by characters none of which is a quote character matches no pattern of the
  registry, on its own and in every line whose text before and after the quoted string
  holds no quote character. In a file that is neither a contract definition nor a test,
  the line \<^verbatim>\<open>const tableName = 'teric-agentic-work-items';\<close> yields exactly one violation, of
  kind \<^verbatim>\<open>hardcoded_table_name\<close>, with the 1-based number of the line and the first 100
  characters of the trimmed line as snippet: when the lines of the file are \<open>before\<close>, the
  line and \<open>after\<close>, the findings of \<^verbatim>\<open>scanFile\<close> are those of the lines before, this one
  violation, and those of the lines after.
\<close>

theorem table_name_matching:
  "(\<forall>t \<in> set KNOWN_TABLE_PATTERNS. \<forall>w \<in> set (omit_hyphens t).
      \<forall>q1 \<in> quote_chars. \<forall>q2 \<in> quote_chars. \<forall>pre post.
        RegExp_test (table_source t) ''gi'' (pre @ q1 # w @ q2 # post) = Some True) \<and>
   (\<forall>t \<in> set KNOWN_TABLE_PATTERNS. \<forall>t' \<in> set KNOWN_TABLE_PATTERNS.
      \<forall>q1 \<in> quote_chars. \<forall>q2 \<in> quote_chars. \<forall>pre ext post.
        ext \<noteq> [] \<and> set pre \<inter> quote_chars = {} \<and> set ext \<inter> quote_chars = {} \<and>
        set post \<inter> quote_chars = {} \<longrightarrow>
        RegExp_test (table_source t') ''gi'' (pre @ q1 # t @ ext @ q2 # post) = Some False) \<and>
   (\<forall>(e :: env) p c content before after.
      readFileSync e p = Inr content \<and> \<not> skips_tables p \<and>
      split_lines content = before @ table_line # after \<longrightarrow>
      violations (scanFile e p c) =
        violations (scan_lines p 0 before) @
        table_finding p (length before + 1) table_line ''teric-agentic-work-items'' #
        violations (scan_lines p (length before + 1) after) \<and>
      warnings (scanFile e p c) =
        warnings (scan_lines p 0 before) @ warnings (scan_lines p (length before + 1) after)) \<and>
   (\<forall>p n.
      kind (table_finding p n table_line ''teric-agentic-work-items'') = hardcoded_table_name \<and>
      severity (table_finding p n table_line ''teric-agentic-work-items'') = Error \<and>
      file_path (table_finding p n table_line ''teric-agentic-work-items'') = Some p \<and>
      line_no (table_finding p n table_line ''teric-agentic-work-items'') = Some n \<and>
      snippet (table_finding p n table_line ''teric-agentic-work-items'') =
        Some (take 100 (trim table_line)))"
proof (intro conjI ballI allI impI)
  fix t w q1 q2 pre post
  assume "t \<in> set KNOWN_TABLE_PATTERNS" "w \<in> set (omit_hyphens t)"
    "q1 \<in> quote_chars" "q2 \<in> quote_chars"
  then show "RegExp_test (table_source t) ''gi'' (pre @ q1 # w @ q2 # post) = Some True"
    using table_regex_tolerates_hyphens [of w t q1 q2 pre post]
    by (simp add: RegExp_test_table)
next
  fix t t' q1 q2 pre ext post
  assume "t \<in> set KNOWN_TABLE_PATTERNS" "t' \<in> set KNOWN_TABLE_PATTERNS"
    "ext \<noteq> [] \<and> set pre \<inter> quote_chars = {} \<and> set ext \<inter> quote_chars = {} \<and>
     set post \<inter> quote_chars = {}"
  then show "RegExp_test (table_source t') ''gi'' (pre @ q1 # t @ ext @ q2 # post) = Some False"
    using table_regex_not_extended [of t t' ext pre post q1 q2]
    by (simp add: RegExp_test_table)
next
  fix e :: env and p c content before after
  assume h: "readFileSync e p = Inr content \<and> \<not> skips_tables p \<and>
      split_lines content = before @ table_line # after"
  have one: "scan_line p (length before, table_line) no_findings =
      \<lparr>violations = [table_finding p (length before + 1) table_line
                       ''teric-agentic-work-items''],
       warnings = []\<rparr>"
    using h by (simp add: scan_line_eq table_line_hits no_findings_def)
  from h have rd: "readFileSync e p = Inr content"
    and sp: "split_lines content = before @ table_line # after"
    by simp_all
  show "violations (scanFile e p c) =
        violations (scan_lines p 0 before) @
        table_finding p (length before + 1) table_line ''teric-agentic-work-items'' #
        violations (scan_lines p (length before + 1) after)"
    using scanFile_at_line(1) [OF rd sp, of c] by (simp add: one)
  show "warnings (scanFile e p c) =
        warnings (scan_lines p 0 before) @ warnings (scan_lines p (length before + 1) after)"
    using scanFile_at_line(2) [OF rd sp, of c] by (simp add: one)
qed (simp_all add: table_finding_def)

theorem table_name_matching_witness:
  "''teric-agentic-work-items'' \<in> set KNOWN_TABLE_PATTERNS \<and>
   ''tericagentic-workitems'' \<in> set (omit_hyphens ''teric-agentic-work-items'') \<and>
   backtick \<in> quote_chars \<and> squote \<in> quote_chars \<and>
   RegExp_test (table_source ''teric-agentic-work-items'') ''gi'' short_line = Some True \<and>
   ''-v2'' \<noteq> [] \<and> set ''const tableName = '' \<inter> quote_chars = {} \<and>
   set ''-v2'' \<inter> quote_chars = {} \<and> set '';'' \<inter> quote_chars = {} \<and>
   RegExp_test (table_source ''teric-agentic-work-items'') ''gi'' extended_line = Some False \<and>
   readFileSync demo_env ''src/handler.ts'' = Inr handler_content \<and>
   \<not> skips_tables ''src/handler.ts'' \<and>
   split_lines handler_content =
     [''export async function handler() {''] @ table_line # [''}''] \<and>
   violations (scanFile demo_env ''src/handler.ts'' JNull) =
     [table_finding ''src/handler.ts'' 2 table_line ''teric-agentic-work-items''] \<and>
   warnings (scanFile demo_env ''src/handler.ts'' JNull) = []"
proof -
  note T = table_name_matching
  have k: "''teric-agentic-work-items'' \<in> set KNOWN_TABLE_PATTERNS"
    by (rule work_items_known)
  have w: "''tericagentic-workitems'' \<in> set (omit_hyphens ''teric-agentic-work-items'')"
    by simp
  have q: "backtick \<in> quote_chars" "squote \<in> quote_chars"
    by (simp_all add: quote_chars_def)
  have e: "''-v2'' \<noteq> [] \<and> set ''const tableName = '' \<inter> quote_chars = {} \<and>
    set ''-v2'' \<inter> quote_chars = {} \<and> set '';'' \<inter> quote_chars = {}"
    by (simp add: quote_chars_def)
  have h: "readFileSync demo_env ''src/handler.ts'' = Inr handler_content \<and>
    \<not> skips_tables ''src/handler.ts'' \<and>
    split_lines handler_content = [''export async function handler() {''] @ table_line # [''}'']"
    by (simp add: demo_env_def skips_tables_def split_lines_handler)
  have a: "RegExp_test (table_source ''teric-agentic-work-items'') ''gi'' short_line = Some True"
    using T [THEN conjunct1, rule_format, OF k w q(1) q(2), of "''x = ''" "'';''"]
    by (simp add: short_line_def)
  have b: "RegExp_test (table_source ''teric-agentic-work-items'') ''gi'' extended_line
           = Some False"
    using T [THEN conjunct2, THEN conjunct1, rule_format, OF k k q(2) q(2) e]
    by (simp add: extended_line_def)
  have c: "violations (scanFile demo_env ''src/handler.ts'' JNull) =
     [table_finding ''src/handler.ts'' 2 table_line ''teric-agentic-work-items'']"
    "warnings (scanFile demo_env ''src/handler.ts'' JNull) = []"
    using T [THEN conjunct2, THEN conjunct2, THEN conjunct1, rule_format, OF h, of JNull]
    by (simp_all add: scan_lines_Cons scan_lines_Nil quiet_lines no_findings_simps
        numeral_2_eq_2)
  show ?thesis using k w q e h a b c by simp
qed

section \<open>What holds on the other paths\<close>

text \<open>
  A run in which \<^verbatim>\<open>validate\<close> returns or calls \<^verbatim>\<open>process.exit\<close> has written exactly one
  report, and its exit code is 1 if and only if advisory mode is off and the report has
  a violation; otherwise it is 0.
\<close>

theorem exit_code_of_returning_run:
  "validate e = Inr out \<Longrightarrow>
   (exit_code out = 1 \<longleftrightarrow>
      \<not> advisoryMode_of (argv e) \<and> (\<exists>r \<in> set (stdout out). violations r \<noteq> [])) \<and>
   (exit_code out = 0 \<or> exit_code out = 1) \<and> length (stdout out) = 1"
  by (auto simp: validate_def Let_def split: sum.splits if_splits)

theorem exit_code_of_returning_run_witness:
  "validate demo_env = Inr \<lparr>stdout = [demo_report], exit_code = 1\<rparr> \<and>
   \<not> advisoryMode_of (argv demo_env) \<and> violations demo_report \<noteq> []"
  using exit_code_of_returning_run [OF validate_demo]
  by (simp add: validate_demo demo_config demo_report_def)

text \<open>
  A report that is not the one of the configuration error (it has no warning of kind
  \<^verbatim>\<open>config_error\<close>) has a summary that counts its two arrays.
\<close>

theorem summary_counts_after_scan:
  "r \<in> set (stdout (run_script e)) \<Longrightarrow> config_error \<notin> kind ` set (warnings r) \<Longrightarrow>
   errors (summary r) = length (violations r) \<and>
   summary.warnings (summary r) = length (warnings r) \<and>
   total (summary r) = errors (summary r) + summary.warnings (summary r)"
  by (auto simp: run_script_def validate_def Let_def config_error_finding_def
      split: sum.splits if_splits)

theorem summary_counts_after_scan_witness:
  "demo_report \<in> set (stdout (run_script demo_env)) \<and>
   config_error \<notin> kind ` set (warnings demo_report) \<and>
   errors (summary demo_report) = 1 \<and> length (violations demo_report) = 1 \<and>
   summary.warnings (summary demo_report) = 2 \<and> length (warnings demo_report) = 2 \<and>
   total (summary demo_report) = 3"
proof -
  have m: "demo_report \<in> set (stdout (run_script demo_env))"
    by (simp add: run_script_def validate_demo)
  have k: "config_error \<notin> kind ` set (warnings demo_report)"
    by (simp add: demo_report_def package_finding_def scan_error_finding_def)
  show ?thesis
    using summary_counts_after_scan [OF m k] m k by (simp add: demo_report_def)
qed

text \<open>
  In a file whose path contains \<^verbatim>\<open>/contracts/\<close>, \<^verbatim>\<open>.test.\<close> or \<^verbatim>\<open>.spec.\<close> no line yields a
  finding, whichever of the three checks it would match.
\<close>

theorem contracts_and_tests_yield_nothing:
  "includes_str p ''/contracts/'' \<or> includes_str p ''.test.'' \<or> includes_str p ''.spec.'' \<Longrightarrow>
   scan_line p (i, l) acc = acc"
  by (auto simp: scan_line_eq skips_names_def skips_tables_def)

theorem contracts_and_tests_yield_nothing_witness:
  "includes_str ''src/handler.spec.ts'' ''.spec.'' \<and>
   scan_line ''src/handler.spec.ts'' (0, lambda_line) no_findings = no_findings \<and>
   scan_line ''src/handler.spec.ts'' (0, source_line) no_findings = no_findings \<and>
   scan_line ''src/handler.spec.ts'' (0, table_line) no_findings = no_findings"
proof -
  have p: "includes_str ''src/handler.spec.ts'' ''.spec.''" by simp
  then have "includes_str ''src/handler.spec.ts'' ''/contracts/'' \<or>
    includes_str ''src/handler.spec.ts'' ''.test.'' \<or>
    includes_str ''src/handler.spec.ts'' ''.spec.''" by simp
  from contracts_and_tests_yield_nothing [OF this] p show ?thesis by simp
qed

end
